theory Spec2Isabelle
  imports Main "HOL-Library.Char_ord" "HOL-Library.List_Lexorder"
begin

section \<open>Python values: exceptions, paths, string formatting\<close>

text \<open>
  Every exception the two modules catch is caught by \<^verbatim>\<open>except Exception\<close>, apart from
  the driver's \<^verbatim>\<open>except CsppEnvironment\<close>. The exception classes that the model
  distinguishes are the ones the code can tell apart.
\<close>

datatype exn =
    CsppEnvironment string
  | KeyError string
  | ValueError string
  | OSError string
  | Exception string

text \<open>\<^verbatim>\<open>os.path.join(a, b)\<close> on POSIX, for two components.\<close>

definition pjoin :: "string \<Rightarrow> string \<Rightarrow> string" where
  "pjoin a b =
     (if b \<noteq> [] \<and> hd b = CHR ''/'' then b
      else if a = [] \<or> last a = CHR ''/'' then a @ b
      else a @ ''/'' @ b)"

text \<open>\<^verbatim>\<open>str(n)\<close> for a non-negative integer: its decimal digits.\<close>

definition digit :: "nat \<Rightarrow> char" where
  "digit d = char_of (48 + d)"

fun str_nat :: "nat \<Rightarrow> string" where
  "str_nat n = (if n < 10 then [digit n] else str_nat (n div 10) @ [digit (n mod 10)])"

declare str_nat.simps [simp del]

text \<open>\<^verbatim>\<open>"{}_run_{}".format(base, log_idx)\<close>\<close>

definition run_name :: "string \<Rightarrow> nat \<Rightarrow> string" where
  "run_name base log_idx = base @ ''_run_'' @ str_nat log_idx"

text \<open>\<^verbatim>\<open>os.path.basename\<close>, \<^verbatim>\<open>os.path.dirname\<close> and the root of \<^verbatim>\<open>os.path.splitext\<close>.\<close>

definition basename :: "string \<Rightarrow> string" where
  "basename p = rev (takeWhile (\<lambda>c. c \<noteq> CHR ''/'') (rev p))"

definition dirname :: "string \<Rightarrow> string" where
  "dirname p =
     (let head = rev (dropWhile (\<lambda>c. c \<noteq> CHR ''/'') (rev p))
      in if head \<noteq> [] \<and> dropWhile (\<lambda>c. c = CHR ''/'') head \<noteq> []
         then rev (dropWhile (\<lambda>c. c = CHR ''/'') (rev head))
         else head)"

definition splitext_root :: "string \<Rightarrow> string" where
  "splitext_root p =
     (let head = rev (dropWhile (\<lambda>c. c \<noteq> CHR ''/'') (rev p));
          name = basename p;
          rest = dropWhile (\<lambda>c. c \<noteq> CHR ''.'') (rev name)
      in if rest = [] then p
         else if dropWhile (\<lambda>c. c = CHR ''.'') (rev (tl rest)) = [] then p
         else head @ rev (tl rest))"

text \<open>\<^verbatim>\<open>s.replace('dev', 'dev_nasa')\<close>: every occurrence, left to right.\<close>

fun replace_dev :: "string \<Rightarrow> string" where
  "replace_dev [] = []"
| "replace_dev (c # cs) =
     (if take 3 (c # cs) = ''dev'' then ''dev_nasa'' @ replace_dev (drop 2 cs)
      else c # replace_dev cs)"

text \<open>The value of a digit string, used only to show that \<open>str_nat\<close> is injective.\<close>

definition digits_value :: "string \<Rightarrow> nat" where
  "digits_value s = foldl (\<lambda>a c. 10 * a + (of_char c - 48)) 0 s"

section \<open>The run-directory loop of the worker\<close>

text \<open>
  Lines 72--79 of \<^verbatim>\<open>dispatcher.py\<close>:
  \<^verbatim>\<open>
  log_idx = 0
  while True:
      run_dir = pjoin(work_dir, "{}_run_{}".format(granule_dict['run_dir'], log_idx))
      if not exists(run_dir):
          os.makedirs(run_dir)
          break
      else:
          log_idx += 1
  \<close>
  The file system is the list of paths that exist. The loop returns the list of paths it
  probed, in order, and the path it stopped at; \<^verbatim>\<open>os.makedirs\<close> is the caller's step.
\<close>

lemma digits_value_str_nat: "digits_value (str_nat n) = n"
proof (induction n rule: str_nat.induct)
  case (1 n)
  show ?case
  proof (cases "n < 10")
    case True
    then show ?thesis
      by (subst str_nat.simps) (simp add: digits_value_def digit_def)
  next
    case False
    have "digits_value (str_nat n) = 10 * digits_value (str_nat (n div 10)) + n mod 10"
      using False by (subst str_nat.simps) (simp add: digits_value_def digit_def)
    with 1 False show ?thesis by simp
  qed
qed

lemma str_nat_inj: "str_nat m = str_nat n \<Longrightarrow> m = n"
  by (metis digits_value_str_nat)

lemma pjoin_run_name:
  "\<exists>pre. \<forall>k. pjoin wd (run_name base k) = pre @ str_nat k"
proof -
  have hd: "run_name base k \<noteq> [] \<and> hd (run_name base k) = hd (base @ ''_run_'')" for k
    by (cases base) (simp_all add: run_name_def)
  show ?thesis
  proof (cases "hd (base @ ''_run_'') = CHR ''/''")
    case True
    have "pjoin wd (run_name base k) = run_name base k" for k
      using hd [of k] True by (simp add: pjoin_def)
    then have "pjoin wd (run_name base k) = (base @ ''_run_'') @ str_nat k" for k
      by (simp add: run_name_def)
    then show ?thesis by blast
  next
    case False
    note nt = this
    show ?thesis
    proof (cases "wd = [] \<or> last wd = CHR ''/''")
      case True
      have "pjoin wd (run_name base k) = wd @ run_name base k" for k
        using hd [of k] nt True by (simp add: pjoin_def)
      then have "pjoin wd (run_name base k) = (wd @ base @ ''_run_'') @ str_nat k" for k
        by (simp add: run_name_def)
      then show ?thesis by blast
    next
      case False
      have "pjoin wd (run_name base k) = wd @ ''/'' @ run_name base k" for k
        using hd [of k] nt False by (simp add: pjoin_def)
      then have "pjoin wd (run_name base k) = (wd @ ''/'' @ base @ ''_run_'') @ str_nat k" for k
        by (simp add: run_name_def)
      then show ?thesis by blast
    qed
  qed
qed

lemma pjoin_run_name_inj:
  "pjoin wd (run_name base m) = pjoin wd (run_name base n) \<Longrightarrow> m = n"
proof -
  obtain pre where "\<forall>k. pjoin wd (run_name base k) = pre @ str_nat k"
    using pjoin_run_name by blast
  then show "pjoin wd (run_name base m) = pjoin wd (run_name base n) \<Longrightarrow> m = n"
    by (simp add: str_nat_inj)
qed

lemma finite_taken_indices:
  "finite {k. pjoin wd (run_name base k) \<in> set fs}"
proof -
  have "inj (\<lambda>k. pjoin wd (run_name base k))"
    by (rule injI) (rule pjoin_run_name_inj)
  then have "finite ((\<lambda>k. pjoin wd (run_name base k)) -` set fs)"
    by (intro finite_vimageI) simp_all
  then show ?thesis by (simp add: vimage_def)
qed

function probe_run_dir :: "string list \<Rightarrow> string \<Rightarrow> string \<Rightarrow> nat \<Rightarrow> string list \<times> string" where
  "probe_run_dir fs wd base log_idx =
     (let run_dir = pjoin wd (run_name base log_idx)
      in if run_dir \<notin> set fs then ([run_dir], run_dir)
         else (case probe_run_dir fs wd base (log_idx + 1) of
                 (probed, found) \<Rightarrow> (run_dir # probed, found)))"
  by pat_completeness auto
termination
proof (relation "measure (\<lambda>(fs, wd, base, n). card {k. n \<le> k \<and> pjoin wd (run_name base k) \<in> set fs})")
  show "wf (measure (\<lambda>(fs, wd, base, n). card {k. n \<le> k \<and> pjoin wd (run_name base k) \<in> set fs}))"
    by simp
next
  fix fs :: "string list" and wd base :: string and log_idx :: nat and x :: string
  assume x: "x = pjoin wd (run_name base log_idx)" and "\<not> x \<notin> set fs"
  then have mem: "pjoin wd (run_name base log_idx) \<in> set fs" by simp
  let ?A = "{k. log_idx + 1 \<le> k \<and> pjoin wd (run_name base k) \<in> set fs}"
  let ?B = "{k. log_idx \<le> k \<and> pjoin wd (run_name base k) \<in> set fs}"
  have fin: "finite ?B"
    using finite_taken_indices [of wd base fs] by (rule rev_finite_subset) auto
  have "log_idx \<in> ?B" "log_idx \<notin> ?A" "?A \<subseteq> ?B" using mem by auto
  then have "?A \<subset> ?B" by blast
  then have "card ?A < card ?B" using fin by (rule psubset_card_mono [rotated])
  then show "((fs, wd, base, log_idx + 1), (fs, wd, base, log_idx))
      \<in> measure (\<lambda>(fs, wd, base, n). card {k. n \<le> k \<and> pjoin wd (run_name base k) \<in> set fs})"
    by simp
qed

declare probe_run_dir.simps [simp del]

section \<open>Data model of the worker\<close>

text \<open>
  A granule dictionary holds the keys the worker reads: \<^verbatim>\<open>'granule_id'\<close>,
  \<^verbatim>\<open>'run_dir'\<close>, \<^verbatim>\<open>'cmd'\<close>, \<^verbatim>\<open>'creation_dt'\<close>, and one entry per file prefix
  (\<^verbatim>\<open>'GMTCO'\<close>, \<^verbatim>\<open>'AFEDR'\<close>, ...) with its \<^verbatim>\<open>'file'\<close> and \<^verbatim>\<open>'dt'\<close>.
\<close>

record entry =
  entry_file :: string
  entry_dt :: nat

record granule_dict =
  granule_id :: string
  gd_run_dir :: string
  cmd :: string
  creation_dt :: string
  entries :: "string \<rightharpoonup> entry"

text \<open>
  The options dictionary. The driver's \<^verbatim>\<open>main\<close> sets every key but
  \<^verbatim>\<open>'vfire_exe'\<close> and \<^verbatim>\<open>'input_prefixes'\<close>, which the input collaborators add;
  a lookup of an absent key raises \<^verbatim>\<open>KeyError\<close>.
\<close>

record afire_options =
  inputs :: "string list"
  opt_afire_home :: string
  i_band :: bool
  work_dir :: string
  ancil_dir :: string
  cache_dir :: string
  ancillary_only :: bool
  cache_window :: nat
  preserve_cache :: bool
  num_cpu :: "int option"
  docleanup :: bool
  version :: string
  vfire_exe :: "string option"
  input_prefixes :: "string list option"

record args =
  arg_granule_dict :: granule_dict
  arg_afire_home :: string
  arg_afire_options :: afire_options

text \<open>The warnings the worker logs, by the place that logs them.\<close>

datatype warning =
    Problem_generating_LWM string
  | Ancillary_granulation_failed string
  | Problem_writing_text_file string
  | Problem_setting_attributes
  | Problem_moving_output string
  | General_warning string

text \<open>
  The calls the worker makes outside itself, in the order it makes them. A call is
  recorded when it is made, whether it returns or raises.
\<close>

datatype event =
    Exists string
  | Makedirs string
  | Chdir string
  | Get_lwm
  | Link_files string "string list"
  | Execute_binary string string
  | Write_log string
  | Remove string
  | Open_container string
  | Stamp_attributes string
  | Read_nfire
  | Read_dataset string
  | Open_text string
  | Write_text string nat
  | Glob string
  | Move string string
  | Cleanup "string list"
  | Warn warning

text \<open>
  What the world outside answers to each call of one worker: a value, or an exception
  (\<open>Inl\<close>, or \<open>Some\<close> for a call that returns nothing).
\<close>

record world =
  os_getcwd :: string
  existing :: "string list"
  os_makedirs :: "string \<Rightarrow> exn option"
  get_lwm :: "exn + int \<times> string"
  link_files :: "string \<Rightarrow> string list \<Rightarrow> exn + nat"
  execute_binary :: "string \<Rightarrow> string \<Rightarrow> exn + int \<times> string"
  utcnow :: string
  write_log :: "string \<Rightarrow> exn option"
  exists_after :: "string \<Rightarrow> bool"
  os_remove :: "string \<Rightarrow> exn option"
  open_container :: "string \<Rightarrow> exn option"
  stamp_attributes :: "string \<Rightarrow> exn option"
  read_nfire :: "exn + int"
  read_dataset :: "string \<Rightarrow> exn + nat"
  open_text :: "string \<Rightarrow> exn option"
  write_text :: "string \<Rightarrow> exn option"
  glob :: "string \<Rightarrow> string list"
  shutil_move :: "string \<Rightarrow> string \<Rightarrow> exn option"
  cleanup :: "string list \<Rightarrow> exn option"

text \<open>The worker's local variables, the process's current directory and the calls made.\<close>

record locals =
  run_dir :: string
  rc_exe :: int
  rc_problem :: int
  exe_out :: string
  failed_ancillary :: bool
  lwm_file :: "string option"
  cwd :: string
  trace :: "event list"

definition emit :: "event \<Rightarrow> locals \<Rightarrow> locals" where
  "emit e s = s\<lparr>trace := trace s @ [e]\<rparr>"

definition chdir :: "string \<Rightarrow> locals \<Rightarrow> locals" where
  "chdir d s = emit (Chdir d) (s\<lparr>cwd := d\<rparr>)"

section \<open>The worker, \<^verbatim>\<open>afire_submitter\<close>\<close>

text \<open>
  The calls that may raise are the ones into the file system, the collaborators and the
  container libraries, and the dictionary lookups of keys that the driver does not set
  itself. Logging, string formatting, the time measurement, and \<^verbatim>\<open>os.getcwd\<close> and
  \<^verbatim>\<open>os.chdir\<close>, which read and write the current directory of the process, are taken
  to return.
\<close>

text \<open>Lines 72--81: create the run directory and enter it.\<close>

definition create_run_dir :: "world \<Rightarrow> afire_options \<Rightarrow> granule_dict \<Rightarrow> locals \<Rightarrow> exn option \<times> locals" where
  "create_run_dir w opts gd s =
     (case probe_run_dir (existing w) (work_dir opts) (gd_run_dir gd) 0 of
        (probed, found) \<Rightarrow>
          (let s1 = s\<lparr>run_dir := found, trace := trace s @ map Exists probed @ [Makedirs found]\<rparr>
           in case os_makedirs w found of
                Some e \<Rightarrow> (Some e, s1)
              | None \<Rightarrow> (None, chdir found s1)))"

text \<open>Lines 84--93: stage the ancillary data; a non-zero status or an exception is a failure.\<close>

definition stage_ancillary :: "world \<Rightarrow> granule_dict \<Rightarrow> locals \<Rightarrow> locals" where
  "stage_ancillary w gd s =
     (case get_lwm w of
        Inr (rc_ancil, lwm) \<Rightarrow>
          (emit Get_lwm s)\<lparr>lwm_file := Some lwm, failed_ancillary := (rc_ancil \<noteq> 0)\<rparr>
      | Inl err \<Rightarrow>
          emit (Warn (Problem_generating_LWM (granule_id gd)))
            ((emit Get_lwm s)\<lparr>failed_ancillary := True\<rparr>))"

text \<open>Lines 114--117: the paths to link; each dictionary lookup may raise \<^verbatim>\<open>KeyError\<close>.\<close>

fun input_files :: "granule_dict \<Rightarrow> string list \<Rightarrow> exn + string list" where
  "input_files gd [] = Inr []"
| "input_files gd (key # keys) =
     (case entries gd key of
        None \<Rightarrow> Inl (KeyError key)
      | Some e \<Rightarrow> (case input_files gd keys of
                     Inl err \<Rightarrow> Inl err
                   | Inr fs \<Rightarrow> Inr (entry_file e # fs)))"

definition paths_to_link :: "string \<Rightarrow> afire_options \<Rightarrow> granule_dict \<Rightarrow> string \<Rightarrow> exn + string list" where
  "paths_to_link home opts gd lwm =
     (case vfire_exe opts of
        None \<Rightarrow> Inl (KeyError ''vfire_exe'')
      | Some exe \<Rightarrow>
          (case input_prefixes opts of
             None \<Rightarrow> Inl (KeyError ''input_prefixes'')
           | Some keys \<Rightarrow>
               (case input_files gd keys of
                  Inl err \<Rightarrow> Inl err
                | Inr fs \<Rightarrow> Inr ([pjoin (pjoin home ''vendor'') exe, lwm] @ fs))))"

text \<open>Lines 193--197 and 271--275: read the five datasets in order.\<close>

fun read_datasets :: "world \<Rightarrow> string list \<Rightarrow> locals \<Rightarrow> (exn + nat list) \<times> locals" where
  "read_datasets w [] s = (Inr [], s)"
| "read_datasets w (dset # dsets) s =
     (case read_dataset w dset of
        Inl err \<Rightarrow> (Inl err, emit (Read_dataset dset) s)
      | Inr a \<Rightarrow> (case read_datasets w dsets (emit (Read_dataset dset) s) of
                   (Inl err, s') \<Rightarrow> (Inl err, s')
                 | (Inr as, s') \<Rightarrow> (Inr (a # as), s')))"

text \<open>The number of rows \<^verbatim>\<open>zip(*fire_data)\<close> yields: the length of the shortest array.\<close>

fun zip_rows :: "nat list \<Rightarrow> nat" where
  "zip_rows [] = 0"
| "zip_rows [a] = a"
| "zip_rows (a # b # r) = min a (zip_rows (b # r))"

text \<open>
  Lines 236--254 and 307--325: create the text file (mode \<^verbatim>\<open>'x'\<close>; an exception here
  goes to the enclosing handler) and write header and rows inside the inner
  \<^verbatim>\<open>try\<close>, whose handler sets \<^verbatim>\<open>rc_problem = 1\<close>.
\<close>

definition write_text_file :: "world \<Rightarrow> string \<Rightarrow> nat list \<Rightarrow> locals \<Rightarrow> exn option \<times> locals" where
  "write_text_file w output_txt_file fire_data s =
     (let s1 = emit (Open_text output_txt_file) s
      in case open_text w output_txt_file of
           Some e \<Rightarrow> (Some e, s1)
         | None \<Rightarrow>
             (let s2 = emit (Write_text output_txt_file (zip_rows fire_data)) s1
              in case write_text w output_txt_file of
                   None \<Rightarrow> (None, s2)
                 | Some e \<Rightarrow>
                     (None, emit (Warn (Problem_writing_text_file output_txt_file))
                              (s2\<lparr>rc_problem := 1\<rparr>))))"

text \<open>Lines 172--174 and 232--234: remove a file if it exists.\<close>

definition remove_if_exists :: "world \<Rightarrow> string \<Rightarrow> locals \<Rightarrow> exn option \<times> locals" where
  "remove_if_exists w p s =
     (if exists_after w p then (os_remove w p, emit (Remove p) (emit (Exists p) s))
      else (None, emit (Exists p) s))"

text \<open>Lines 182--188 and 259--266: open the output container and stamp its attributes.\<close>

definition open_and_stamp :: "world \<Rightarrow> string \<Rightarrow> locals \<Rightarrow> exn option \<times> locals" where
  "open_and_stamp w old_output_file s =
     (case open_container w old_output_file of
        Some e \<Rightarrow> (Some e, emit (Open_container old_output_file) s)
      | None \<Rightarrow>
          (stamp_attributes w old_output_file,
           emit (Stamp_attributes old_output_file) (emit (Open_container old_output_file) s)))"

text \<open>Lines 191--197 and 269--275: the record count, and the datasets when it is positive.\<close>

definition extract_fire_data :: "world \<Rightarrow> string list \<Rightarrow> locals \<Rightarrow> (exn + int \<times> nat list) \<times> locals" where
  "extract_fire_data w fire_datasets s =
     (case read_nfire w of
        Inl e \<Rightarrow> (Inl e, emit Read_nfire s)
      | Inr nfire \<Rightarrow>
          (if nfire > 0
           then (case read_datasets w fire_datasets (emit Read_nfire s) of
                   (Inl e, s') \<Rightarrow> (Inl e, s')
                 | (Inr fire_data, s') \<Rightarrow> (Inr (nfire, fire_data), s'))
           else (Inr (nfire, []), emit Read_nfire s)))"

text \<open>Lines 181--254, the I-band branch.\<close>

definition update_i_band :: "world \<Rightarrow> string \<Rightarrow> string \<Rightarrow> locals \<Rightarrow> exn option \<times> locals" where
  "update_i_band w old_output_file output_txt_file s =
     (case open_and_stamp w old_output_file s of
        (Some e, s1) \<Rightarrow> (Some e, s1)
      | (None, s1) \<Rightarrow>
          (case extract_fire_data w
                  [''FP_latitude'', ''FP_longitude'', ''FP_T4'', ''FP_confidence'', ''FP_power''] s1 of
             (Inl e, s2) \<Rightarrow> (Some e, s2)
           | (Inr (nfire, fire_data), s2) \<Rightarrow>
               (if nfire > 0
                then (case remove_if_exists w (replace_dev output_txt_file) s2 of
                        (Some e, s3) \<Rightarrow> (Some e, s3)
                      | (None, s3) \<Rightarrow> write_text_file w output_txt_file fire_data s3)
                else (None, s2))))"

text \<open>Lines 257--325, the M-band branch.\<close>

definition update_m_band :: "world \<Rightarrow> string \<Rightarrow> string \<Rightarrow> locals \<Rightarrow> exn option \<times> locals" where
  "update_m_band w old_output_file output_txt_file s =
     (case open_and_stamp w old_output_file s of
        (Some e, s1) \<Rightarrow> (Some e, s1)
      | (None, s1) \<Rightarrow>
          (case extract_fire_data w
                  [''FP_latitude'', ''FP_longitude'', ''FP_T13'', ''FP_confidence'', ''FP_power''] s1 of
             (Inl e, s2) \<Rightarrow> (Some e, s2)
           | (Inr (nfire, fire_data), s2) \<Rightarrow>
               (if nfire > 0
                then write_text_file w output_txt_file fire_data s2
                else (None, s2))))"

text \<open>
  Lines 165--331, the \<^verbatim>\<open>try\<close> around the output repair. Its handler sets
  \<^verbatim>\<open>rc_problem = 1\<close> and then formats \<^verbatim>\<open>old_output_file\<close> into a warning; when the
  lookup of \<^verbatim>\<open>granule_dict['AFEDR']\<close> on line 167 is what raised, that name is unbound
  and the handler itself raises.
\<close>

definition repair_failed :: "locals \<Rightarrow> locals" where
  "repair_failed s = emit (Warn Problem_setting_attributes) (s\<lparr>rc_problem := 1\<rparr>)"

definition update_attributes :: "world \<Rightarrow> afire_options \<Rightarrow> granule_dict \<Rightarrow> locals \<Rightarrow> exn option \<times> locals" where
  "update_attributes w opts gd s =
     (case entries gd ''AFEDR'' of
        None \<Rightarrow> (Some (Exception ''UnboundLocalError: old_output_file''), s\<lparr>rc_problem := 1\<rparr>)
      | Some afedr \<Rightarrow>
          (let old_output_file = pjoin (run_dir s) (entry_file afedr);
               output_txt_file = splitext_root old_output_file @ ''.txt''
           in case remove_if_exists w output_txt_file s of
                (Some e, s1) \<Rightarrow> (None, repair_failed s1)
              | (None, s1) \<Rightarrow>
                  (case (if i_band opts
                         then update_i_band w old_output_file output_txt_file s1
                         else update_m_band w old_output_file output_txt_file s1) of
                     (Some e, s2) \<Rightarrow> (None, repair_failed s2)
                   | (None, s2) \<Rightarrow> (None, s2))))"

text \<open>Lines 340--347: move each output file; a failed move sets \<^verbatim>\<open>rc_problem = 1\<close>.\<close>

fun move_outputs :: "world \<Rightarrow> string \<Rightarrow> string list \<Rightarrow> locals \<Rightarrow> locals" where
  "move_outputs w wd [] s = s"
| "move_outputs w wd (outfile # outfiles) s =
     move_outputs w wd outfiles
       (case shutil_move w outfile wd of
          None \<Rightarrow> emit (Move outfile wd) s
        | Some e \<Rightarrow> emit (Warn (Problem_moving_output outfile))
                     ((emit (Move outfile wd) s)\<lparr>rc_problem := 1\<rparr>))"

text \<open>Lines 334--338: the output files to move.\<close>

definition relocate_outputs :: "world \<Rightarrow> afire_options \<Rightarrow> locals \<Rightarrow> locals" where
  "relocate_outputs w opts s =
     (let af_prefix = (if i_band opts then ''AFIMG'' else ''AFMOD'');
          af_suffix = (if i_band opts then ''nc'' else ''nc'');
          nc_pattern = pjoin (run_dir s) (af_prefix @ ''*.'' @ af_suffix);
          txt_pattern = pjoin (run_dir s) (af_prefix @ ''*.txt'');
          outfiles = glob w nc_pattern @ glob w txt_pattern
      in move_outputs w (work_dir opts) outfiles (emit (Glob txt_pattern) (emit (Glob nc_pattern) s)))"

text \<open>
  Lines 151--347: after the binary has returned, restore the current directory, write the
  captured output to the log file, repair the output and move it.
\<close>

definition post_process ::
    "world \<Rightarrow> afire_options \<Rightarrow> granule_dict \<Rightarrow> string \<Rightarrow> locals \<Rightarrow> exn option \<times> locals" where
  "post_process w opts gd current_dir s =
     (let logname = run_dir s @ ''_'' @ utcnow w @ ''.log'';
          logpath = pjoin (dirname (run_dir s)) logname
      in case write_log w logpath of
           Some e \<Rightarrow> (Some e, emit (Write_log logpath) (chdir current_dir s))
         | None \<Rightarrow>
             (case update_attributes w opts gd (emit (Write_log logpath) (chdir current_dir s)) of
                (Some e, s3) \<Rightarrow> (Some e, s3)
              | (None, s3) \<Rightarrow> (None, relocate_outputs w opts s3)))"

text \<open>Lines 113--347, the branch that runs the binary.\<close>

definition run_active_fire ::
    "world \<Rightarrow> string \<Rightarrow> afire_options \<Rightarrow> granule_dict \<Rightarrow> string \<Rightarrow> locals \<Rightarrow> exn option \<times> locals" where
  "run_active_fire w home opts gd current_dir s =
     (case lwm_file s of
        None \<Rightarrow> (Some (Exception ''UnboundLocalError: lwm_file''), s)
      | Some lwm \<Rightarrow>
     (case paths_to_link home opts gd lwm of
        Inl e \<Rightarrow> (Some e, s)
      | Inr paths \<Rightarrow>
     (case link_files w (run_dir s) paths of
        Inl e \<Rightarrow> (Some e, emit (Link_files (run_dir s) paths) s)
      | Inr number_linked \<Rightarrow>
     (let s1 = emit (Execute_binary (run_dir s) (cmd gd)) (emit (Link_files (run_dir s) paths) s)
      in case execute_binary w (run_dir s) (cmd gd) of
        Inl e \<Rightarrow> (Some e, s1)
      | Inr (rc, out) \<Rightarrow> post_process w opts gd current_dir (s1\<lparr>rc_exe := rc, exe_out := out\<rparr>)))))"

text \<open>
  Lines 349--351: when both statuses are 0 and cleanup is on, remove the run directory.
  An exception raised before this point passes through.
\<close>

definition remove_run_dir :: "world \<Rightarrow> afire_options \<Rightarrow> exn option \<times> locals \<Rightarrow> exn option \<times> locals" where
  "remove_run_dir w opts r =
     (case r of
        (Some e, s3) \<Rightarrow> (Some e, s3)
      | (None, s3) \<Rightarrow>
          (if rc_exe s3 = 0 \<and> rc_problem s3 = 0 \<and> docleanup opts
           then (cleanup w [run_dir s3], emit (Cleanup [run_dir s3]) s3)
           else (None, s3)))"

text \<open>Lines 47--351, the body of the outer \<^verbatim>\<open>try\<close>.\<close>

definition initial_locals :: "world \<Rightarrow> granule_dict \<Rightarrow> locals" where
  "initial_locals w gd =
     \<lparr>run_dir = gd_run_dir gd, rc_exe = 0, rc_problem = 0,
      exe_out = ''Finished the Active Fires granule '' @ granule_id gd,
      failed_ancillary = False, lwm_file = None, cwd = os_getcwd w, trace = []\<rparr>"

definition afire_body :: "world \<Rightarrow> args \<Rightarrow> exn option \<times> locals" where
  "afire_body w a =
     (let gd = arg_granule_dict a; home = arg_afire_home a; opts = arg_afire_options a;
          current_dir = os_getcwd w
      in case create_run_dir w opts gd (initial_locals w gd) of
           (Some e, s1) \<Rightarrow> (Some e, s1)
         | (None, s1) \<Rightarrow>
             (let s2 = stage_ancillary w gd s1
              in remove_run_dir w opts
                      (if ancillary_only opts
                       then (None, chdir current_dir
                               (if failed_ancillary s2
                                then (emit (Warn (Ancillary_granulation_failed (granule_id gd))) s2)
                                       \<lparr>rc_problem := 1\<rparr>
                                else s2))
                       else if failed_ancillary s2
                       then (None, (chdir current_dir
                               (emit (Warn (Ancillary_granulation_failed (granule_id gd))) s2))
                                  \<lparr>rc_problem := 1\<rparr>)
                       else run_active_fire w home opts gd current_dir s2)))"

text \<open>
  Lines 353--359: the handler of the outer \<^verbatim>\<open>try\<close> logs a warning and restores the
  current directory; it assigns neither status. The worker then returns
  \<^verbatim>\<open>[granule_id, rc_exe, rc_problem, exe_out]\<close>.
\<close>

definition afire_worker :: "world \<Rightarrow> args \<Rightarrow> locals" where
  "afire_worker w a =
     (case afire_body w a of
        (None, s) \<Rightarrow> s
      | (Some e, s) \<Rightarrow>
          chdir (os_getcwd w) (emit (Warn (General_warning (granule_id (arg_granule_dict a)))) s))"

definition afire_submitter :: "world \<Rightarrow> args \<Rightarrow> string \<times> int \<times> int \<times> string" where
  "afire_submitter w a =
     (let s = afire_worker w a
      in (granule_id (arg_granule_dict a), rc_exe s, rc_problem s, exe_out s))"

section \<open>The dispatcher, \<^verbatim>\<open>afire_dispatcher\<close>\<close>

text \<open>
  A Python dictionary with string keys is an association list read through \<open>map_of\<close>;
  its keys are \<open>remdups (map fst d)\<close>. Each worker runs in a process of its own and
  sees its own answers from the world, \<open>worlds key\<close>.
\<close>

type_synonym afire_data = "(string \<times> granule_dict) list"

definition str_int :: "int \<Rightarrow> string" where
  "str_int i = (if i < 0 then ''-'' @ str_nat (nat (- i)) else str_nat (nat i))"

text \<open>Lines 381--394: the pool size, and the warnings logged while choosing it.\<close>

definition cpus_to_use :: "int option \<Rightarrow> int \<Rightarrow> int \<times> string list" where
  "cpus_to_use requested_cpu_count cpu_count =
     (case requested_cpu_count of
        Some r \<Rightarrow>
          (if r > cpu_count
           then (cpu_count, [str_int r @ '' requested CPUs is greater than available, using ''
                               @ str_int cpu_count])
           else (r, []))
      | None \<Rightarrow> (cpu_count, []))"

text \<open>\<^verbatim>\<open>multiprocessing.Pool(n)\<close> raises \<^verbatim>\<open>ValueError\<close> when \<open>n < 1\<close>.\<close>

definition Pool :: "int \<Rightarrow> exn + nat" where
  "Pool processes =
     (if processes < 1 then Inl (ValueError ''Number of processes must be at least 1'')
      else Inr (nat processes))"

text \<open>Lines 369--375: one task per key, in sorted key order.\<close>

fun afire_tasks :: "string \<Rightarrow> afire_data \<Rightarrow> afire_options \<Rightarrow> string list \<Rightarrow> (string \<times> args) list" where
  "afire_tasks home d opts [] = []"
| "afire_tasks home d opts (key # keys) =
     (case map_of d key of
        None \<Rightarrow> afire_tasks home d opts keys
      | Some gd \<Rightarrow>
          (key, \<lparr>arg_granule_dict = gd, arg_afire_home = home, arg_afire_options = opts\<rparr>)
            # afire_tasks home d opts keys)"

text \<open>Lines 419--430: collect the two status dictionaries.\<close>

fun collect_results ::
    "(string \<times> int \<times> int \<times> string) list \<Rightarrow> (string \<rightharpoonup> int) \<times> (string \<rightharpoonup> int)
       \<Rightarrow> (string \<rightharpoonup> int) \<times> (string \<rightharpoonup> int)" where
  "collect_results [] dicts = dicts"
| "collect_results ((gid, afire_rc, problem_rc, out) # results) (rc_exe_dict, rc_problem_dict) =
     collect_results results (rc_exe_dict(gid \<mapsto> afire_rc), rc_problem_dict(gid \<mapsto> problem_rc))"

definition submitted_tasks :: "string \<Rightarrow> afire_data \<Rightarrow> afire_options \<Rightarrow> (string \<times> args) list" where
  "submitted_tasks home d opts = afire_tasks home d opts (sort (remdups (map fst d)))"

definition afire_dispatcher ::
    "int \<Rightarrow> (string \<Rightarrow> world) \<Rightarrow> string \<Rightarrow> afire_data \<Rightarrow> afire_options
       \<Rightarrow> exn + (string \<rightharpoonup> int) \<times> (string \<rightharpoonup> int)" where
  "afire_dispatcher cpu_count worlds home d opts =
     (case Pool (fst (cpus_to_use (num_cpu opts) cpu_count)) of
        Inl e \<Rightarrow> Inl e
      | Inr pool \<Rightarrow>
          (let result_list = map (\<lambda>(key, a). afire_submitter (worlds key) a)
                               (submitted_tasks home d opts)
           in Inr (collect_results result_list (Map.empty, Map.empty))))"

section \<open>The driver, \<^verbatim>\<open>process_afire_inputs\<close> and \<^verbatim>\<open>main\<close>\<close>

text \<open>Lines 105--123: the four lists, each \<^verbatim>\<open>sorted(list(set(...)))\<close>.\<close>

fun populate_lists ::
    "(string \<rightharpoonup> int) \<Rightarrow> (string \<rightharpoonup> int) \<Rightarrow> string list
       \<Rightarrow> string list \<times> string list \<times> string list \<times> string list
       \<Rightarrow> exn + string list \<times> string list \<times> string list \<times> string list" where
  "populate_lists rc_exe_dict rc_problem_dict [] runs = Inr runs"
| "populate_lists rc_exe_dict rc_problem_dict (gid # gids) (attempted, successful, crashed, problem) =
     (case rc_exe_dict gid of
        None \<Rightarrow> Inl (KeyError gid)
      | Some rc_exe_v \<Rightarrow>
          (case rc_problem_dict gid of
             None \<Rightarrow> Inl (KeyError gid)
           | Some rc_problem_v \<Rightarrow>
               populate_lists rc_exe_dict rc_problem_dict gids
                 (attempted @ [gid],
                  (if rc_exe_v = 0 \<and> rc_problem_v = 0 then successful @ [gid] else successful),
                  (if rc_exe_v = 0 then crashed else crashed @ [gid]),
                  (if rc_problem_v \<noteq> 0 then problem @ [gid] else problem))))"

definition summary ::
    "(string \<rightharpoonup> int) \<Rightarrow> (string \<rightharpoonup> int) \<Rightarrow> string list
       \<Rightarrow> exn + string list \<times> string list \<times> string list \<times> string list" where
  "summary rc_exe_dict rc_problem_dict granule_id_list =
     (case populate_lists rc_exe_dict rc_problem_dict granule_id_list ([], [], [], []) of
        Inl e \<Rightarrow> Inl e
      | Inr (attempted, successful, crashed, problem) \<Rightarrow>
          Inr (sort (remdups attempted), sort (remdups successful),
               sort (remdups crashed), sort (remdups problem)))"

text \<open>
  The command line as \<^verbatim>\<open>argument_parser\<close> returns it: the parsed arguments, and the
  work directory, cleanup flag and version it computes from them.
\<close>

record cli =
  cli_inputs :: "string list"
  cli_i_band :: bool
  cli_work_dir :: string
  cli_cache_dir :: "string option"
  cli_ancillary_only :: bool
  cli_cache_window :: nat
  cli_preserve_cache :: bool
  cli_num_cpu :: "int option"
  parsed_work_dir :: string
  parsed_docleanup :: bool
  parsed_version :: string


text \<open>
  The answers of the driver's collaborators. The two input collaborators receive the
  options dictionary and may add keys to it, so they return it as well.
\<close>

record driver_world =
  argument_parser :: "exn + cli"
  check_and_convert_env_var :: "string \<Rightarrow> exn + string"
  check_and_convert_path :: "string \<Rightarrow> exn option"
  setup_cache_dir :: "string option \<Rightarrow> string \<Rightarrow> exn + string"
  abspath :: "string \<Rightarrow> string"
  get_afire_inputs :: "afire_options \<Rightarrow> exn + afire_data \<times> string list \<times> afire_options"
  construct_cmd_invocations :: "afire_data \<Rightarrow> afire_options \<Rightarrow> exn + afire_data \<times> afire_options"
  clean_cache :: "string \<Rightarrow> nat \<Rightarrow> nat \<Rightarrow> exn option"
  strftime :: "nat \<Rightarrow> string"
  create_dir :: "string \<Rightarrow> exn + string option"
  cleanup_inputs :: "string list \<Rightarrow> exn option"
  cpu_count :: int
  worlds :: "string \<Rightarrow> world"










section \<open>Predicates on outcomes and traces\<close>

text \<open>Line 88 and line 90: staging fails on a non-zero status or on an exception.\<close>

definition staging_failed :: "exn + int \<times> string \<Rightarrow> bool" where
  "staging_failed r = (case r of Inl e \<Rightarrow> True | Inr (rc_ancil, lwm) \<Rightarrow> rc_ancil \<noteq> 0)"

fun is_execute_binary :: "event \<Rightarrow> bool" where
  "is_execute_binary (Execute_binary rd c) = True"
| "is_execute_binary _ = False"

fun is_open_text :: "event \<Rightarrow> bool" where
  "is_open_text (Open_text p) = True"
| "is_open_text _ = False"

fun is_glob :: "event \<Rightarrow> bool" where
  "is_glob (Glob p) = True"
| "is_glob _ = False"


text \<open>The warnings of the handlers of the repair and relocation steps.\<close>

fun is_post_problem :: "event \<Rightarrow> bool" where
  "is_post_problem (Warn (Problem_writing_text_file p)) = True"
| "is_post_problem (Warn Problem_setting_attributes) = True"
| "is_post_problem (Warn (Problem_moving_output p)) = True"
| "is_post_problem _ = False"

fun is_get_lwm :: "event \<Rightarrow> bool" where
  "is_get_lwm Get_lwm = True"
| "is_get_lwm _ = False"

fun is_read_nfire :: "event \<Rightarrow> bool" where
  "is_read_nfire Read_nfire = True"
| "is_read_nfire _ = False"

text \<open>
  The problem status records the failures of repair and relocation: it is 0 or 1; it is 1
  when one of their handlers has logged its warning; and when it is 1, either such a
  warning was logged or the granule has no \<^verbatim>\<open>'AFEDR'\<close> entry (the handler of the repair
  step then raises before it logs).
\<close>

definition problem_recorded :: "granule_dict \<Rightarrow> locals \<Rightarrow> bool" where
  "problem_recorded gd s =
     (if list_ex is_post_problem (trace s) then rc_problem s = 1
      else rc_problem s = 0 \<or> (rc_problem s = 1 \<and> entries gd ''AFEDR'' = None))"

fun is_open_container :: "event \<Rightarrow> bool" where
  "is_open_container (Open_container p) = True"
| "is_open_container _ = False"

fun is_write_text :: "event \<Rightarrow> bool" where
  "is_write_text (Write_text p n) = True"
| "is_write_text _ = False"

text \<open>Lines 193--194 and 271--272: the datasets read, by band.\<close>

definition fire_datasets :: "bool \<Rightarrow> string list" where
  "fire_datasets iband =
     (if iband then [''FP_latitude'', ''FP_longitude'', ''FP_T4'', ''FP_confidence'', ''FP_power'']
      else [''FP_latitude'', ''FP_longitude'', ''FP_T13'', ''FP_confidence'', ''FP_power''])"

text \<open>Reading one of the datasets raises.\<close>

definition datasets_raise :: "world \<Rightarrow> string list \<Rightarrow> bool" where
  "datasets_raise w names = list_ex (\<lambda>dset. isl (read_dataset w dset)) names"

text \<open>
  Some call of the repair step (lines 165--325) raises, in terms of the world's answers:
  the removal of a stale text file, opening the container, stamping the attributes,
  reading the record count and, when the count is positive, reading the datasets, the
  removal of a stale companion file (I-band), creating the text file or writing it.
\<close>

definition repair_raises :: "world \<Rightarrow> bool \<Rightarrow> string \<Rightarrow> string \<Rightarrow> bool" where
  "repair_raises w iband old_output_file output_txt_file =
     ((exists_after w output_txt_file \<and> os_remove w output_txt_file \<noteq> None)
      \<or> open_container w old_output_file \<noteq> None
      \<or> stamp_attributes w old_output_file \<noteq> None
      \<or> (case read_nfire w of
            Inl e \<Rightarrow> True
          | Inr nfire \<Rightarrow>
              nfire > 0
              \<and> (datasets_raise w (fire_datasets iband)
                   \<or> (iband \<and> exists_after w (replace_dev output_txt_file)
                        \<and> os_remove w (replace_dev output_txt_file) \<noteq> None)
                   \<or> open_text w output_txt_file \<noteq> None
                   \<or> write_text w output_txt_file \<noteq> None)))"

text \<open>Lines 335--338: the output files found in a run directory.\<close>

definition outfiles :: "world \<Rightarrow> afire_options \<Rightarrow> string \<Rightarrow> string list" where
  "outfiles w opts rd =
     glob w (pjoin rd ((if i_band opts then ''AFIMG'' else ''AFMOD'') @ ''*.nc''))
       @ glob w (pjoin rd ((if i_band opts then ''AFIMG'' else ''AFMOD'') @ ''*.txt''))"

text \<open>Moving one of the files raises.\<close>

definition move_raises :: "world \<Rightarrow> string \<Rightarrow> string list \<Rightarrow> bool" where
  "move_raises w wd files = list_ex (\<lambda>f. shutil_move w f wd \<noteq> None) files"

text \<open>
  The calls of the repair step that a trace must hold, given the world's answers: each
  call whose predecessors returned. After the record count (lines 192--254 and 270--325):
  when the count is positive, the five datasets and, if they are read and no stale
  companion file is in the way, the creation of the text file and the writing of it.
\<close>

definition report_attempted :: "world \<Rightarrow> bool \<Rightarrow> string \<Rightarrow> event list \<Rightarrow> bool" where
  "report_attempted w iband output_txt_file tr =
     (case read_nfire w of
        Inl e \<Rightarrow> True
      | Inr nfire \<Rightarrow>
          (if nfire > 0 \<and> \<not> datasets_raise w (fire_datasets iband)
           then list_all (\<lambda>dset. Read_dataset dset \<in> set tr) (fire_datasets iband)
                \<and> (if iband \<and> exists_after w (replace_dev output_txt_file)
                         \<and> os_remove w (replace_dev output_txt_file) \<noteq> None
                     then True
                     else Open_text output_txt_file \<in> set tr
                          \<and> (if open_text w output_txt_file = None
                               then list_ex is_write_text tr else True))
           else True))"

text \<open>Lines 182--199 and 259--276: open the container, stamp it, read the count.\<close>

definition container_attempted :: "world \<Rightarrow> bool \<Rightarrow> string \<Rightarrow> string \<Rightarrow> event list \<Rightarrow> bool" where
  "container_attempted w iband old_output_file output_txt_file tr =
     (Open_container old_output_file \<in> set tr
      \<and> (if open_container w old_output_file \<noteq> None then True
           else Stamp_attributes old_output_file \<in> set tr
                \<and> (if stamp_attributes w old_output_file \<noteq> None then True
                     else Read_nfire \<in> set tr \<and> report_attempted w iband output_txt_file tr)))"

text \<open>Lines 165--325: the test for a stale text file, then the container.\<close>

definition repair_attempted :: "world \<Rightarrow> bool \<Rightarrow> string \<Rightarrow> string \<Rightarrow> event list \<Rightarrow> bool" where
  "repair_attempted w iband old_output_file output_txt_file tr =
     (Exists output_txt_file \<in> set tr
      \<and> (if exists_after w output_txt_file \<and> os_remove w output_txt_file \<noteq> None then True
           else container_attempted w iband old_output_file output_txt_file tr))"

text \<open>Lines 337--342: both patterns are looked up and every file found is moved.\<close>

definition relocation_attempted :: "world \<Rightarrow> afire_options \<Rightarrow> string \<Rightarrow> event list \<Rightarrow> bool" where
  "relocation_attempted w opts rd tr =
     (list_ex is_glob tr
      \<and> list_all (\<lambda>f. Move f (work_dir opts) \<in> set tr) (outfiles w opts rd))"

section \<open>Concrete inputs\<close>

text \<open>
  An M-band granule, options as the driver and the input collaborators leave them, and a
  world in which every call succeeds and the output holds no fire pixels.
\<close>

definition example_granule :: "string \<Rightarrow> granule_dict" where
  "example_granule gid =
     \<lparr>granule_id = gid, gd_run_dir = gid, cmd = ''vfire'', creation_dt = ''2017-02-07T00:00:00'',
      entries = [''GMTCO'' \<mapsto> \<lparr>entry_file = ''GMTCO.h5'', entry_dt = 0\<rparr>,
                 ''AFEDR'' \<mapsto> \<lparr>entry_file = ''AFMOD.nc'', entry_dt = 0\<rparr>]\<rparr>"

definition example_options :: afire_options where
  "example_options =
     \<lparr>inputs = [''/data''], opt_afire_home = ''/opt/afire'', i_band = False, work_dir = ''/work'',
      ancil_dir = ''/anc'', cache_dir = ''/cache'', ancillary_only = False, cache_window = 6,
      preserve_cache = True, num_cpu = Some 10, docleanup = False, version = ''1.0'',
      vfire_exe = Some ''vfire'', input_prefixes = Some [''GMTCO'']\<rparr>"

definition example_args :: "string \<Rightarrow> args" where
  "example_args gid =
     \<lparr>arg_granule_dict = example_granule gid, arg_afire_home = ''/opt/afire'',
      arg_afire_options = example_options\<rparr>"

definition example_world :: world where
  "example_world =
     \<lparr>os_getcwd = ''/home'', existing = [], os_makedirs = (\<lambda>p. None),
      get_lwm = Inr (0, ''/cache/lwm.nc''), link_files = (\<lambda>rd ps. Inr (length ps)),
      execute_binary = (\<lambda>rd c. Inr (0, ''done'')), utcnow = ''2017-02-07T00:00:01'',
      write_log = (\<lambda>p. None), exists_after = (\<lambda>p. False), os_remove = (\<lambda>p. None),
      open_container = (\<lambda>p. None), stamp_attributes = (\<lambda>p. None), read_nfire = Inr 0,
      read_dataset = (\<lambda>dset. Inr 0), open_text = (\<lambda>p. None), write_text = (\<lambda>p. None),
      glob = (\<lambda>p. []), shutil_move = (\<lambda>f d. None), cleanup = (\<lambda>ps. None)\<rparr>"

definition example_data :: afire_data where
  "example_data = [(''g2'', example_granule ''g2''), (''g1'', example_granule ''g1'')]"



lemmas worker_defs =
  afire_submitter_def afire_worker_def afire_body_def remove_run_dir_def initial_locals_def
  create_run_dir_def
  stage_ancillary_def run_active_fire_def post_process_def update_attributes_def
  update_i_band_def update_m_band_def open_and_stamp_def extract_fire_data_def
  write_text_file_def remove_if_exists_def repair_failed_def relocate_outputs_def
  paths_to_link_def chdir_def emit_def

lemmas example_defs =
  example_granule_def example_options_def example_args_def example_world_def example_data_def

section \<open>Evaluation of the decimal rendering\<close>

lemma str_nat_values:
  "str_nat 0 = ''0''" "str_nat (Suc 0) = ''1''" "str_nat 1 = ''1''" "str_nat 2 = ''2''"
  by code_simp+

section \<open>The pool size\<close>

text \<open>
  Claim C3. The pool size the dispatcher asks for is the requested value when one is set
  and does not exceed the number of available CPUs; it is the number of available CPUs,
  and a warning is logged, when the requested value exceeds it; and it is the number of
  available CPUs when no value is requested. A pool of that size is created whenever the
  size is at least 1, so the clamped request is not an error.
\<close>

theorem cpus_to_use_cases:
  "(r \<le> c \<longrightarrow> cpus_to_use (Some r) c = (r, []))
   \<and> (r > c \<longrightarrow> fst (cpus_to_use (Some r) c) = c \<and> snd (cpus_to_use (Some r) c) \<noteq> [])
   \<and> cpus_to_use None c = (c, [])
   \<and> (1 \<le> fst (cpus_to_use req c)
        \<longrightarrow> Pool (fst (cpus_to_use req c)) = Inr (nat (fst (cpus_to_use req c))))"
  by (simp add: cpus_to_use_def Pool_def)

theorem cpus_to_use_cases_witness:
  "cpus_to_use (Some 3) 4 = (3, [])
   \<and> fst (cpus_to_use (Some 10) 4) = 4 \<and> snd (cpus_to_use (Some 10) 4) \<noteq> []
   \<and> cpus_to_use None 4 = (4, [])
   \<and> Pool (fst (cpus_to_use (Some 10) 4)) = Inr 4"
proof -
  have h: "(1::int) \<le> fst (cpus_to_use (Some 10) 4)"
    by (simp add: cpus_to_use_def)
  have le: "(3::int) \<le> 4" and lt: "(4::int) < 10"
    by simp_all
  from cpus_to_use_cases [of 3 4 "Some 3"] le have a: "cpus_to_use (Some 3) 4 = (3, [])"
    by blast
  from cpus_to_use_cases [of 10 4 "Some 10"] lt
  have b: "fst (cpus_to_use (Some 10) 4) = 4 \<and> snd (cpus_to_use (Some 10) 4) \<noteq> []"
    and c: "cpus_to_use None 4 = (4, [])"
    and d: "1 \<le> fst (cpus_to_use (Some 10) 4)
            \<longrightarrow> Pool (fst (cpus_to_use (Some 10) 4)) = Inr (nat (fst (cpus_to_use (Some 10) 4)))"
    by blast+
  from d h have "Pool (fst (cpus_to_use (Some 10) 4)) = Inr (nat (fst (cpus_to_use (Some 10) 4)))"
    by blast
  with b have "Pool (fst (cpus_to_use (Some 10) 4)) = Inr 4" by simp
  with a b c show ?thesis by blast
qed

section \<open>The run-directory allocation\<close>



lemma probe_run_dir_first_free:
  assumes "\<forall>k. n \<le> k \<and> k < N \<longrightarrow> pjoin wd (run_name base k) \<in> set fs"
      and "pjoin wd (run_name base N) \<notin> set fs" and "n \<le> N"
  shows "probe_run_dir fs wd base n
           = (map (\<lambda>k. pjoin wd (run_name base k)) [n..<Suc N], pjoin wd (run_name base N))"
  using assms
proof (induction "N - n" arbitrary: n)
  case 0
  then have "n = N" by simp
  with 0 show ?case by (subst probe_run_dir.simps) (simp add: Let_def)
next
  case (Suc d)
  then have lt: "n < N" by simp
  then have mem: "pjoin wd (run_name base n) \<in> set fs" using Suc.prems by simp
  have ih: "probe_run_dir fs wd base (Suc n)
           = (map (\<lambda>k. pjoin wd (run_name base k)) [Suc n..<Suc N], pjoin wd (run_name base N))"
    using Suc lt by (intro Suc.hyps) auto
  have "[n..<Suc N] = n # [Suc n..<Suc N]" using lt by (simp add: upt_conv_Cons)
  then show ?case using mem ih by (subst probe_run_dir.simps) (simp add: Let_def)
qed

text \<open>
  Claim C5. When the directories with suffixes \<open>_run_0\<close> to \<open>_run_{N-1}\<close> exist and the
  one with suffix \<open>_run_N\<close> does not, the loop probes the suffixes \<open>0, 1, ..., N\<close> in
  this order, stops at \<open>_run_N\<close>, and the worker calls \<^verbatim>\<open>os.makedirs\<close> on that
  directory, which becomes its run directory.
\<close>

theorem run_dir_allocation:
  assumes "\<forall>k<N. pjoin (work_dir opts) (run_name (gd_run_dir gd) k) \<in> set (existing w)"
      and "pjoin (work_dir opts) (run_name (gd_run_dir gd) N) \<notin> set (existing w)"
  shows "probe_run_dir (existing w) (work_dir opts) (gd_run_dir gd) 0
           = (map (\<lambda>k. pjoin (work_dir opts) (run_name (gd_run_dir gd) k)) [0..<Suc N],
              pjoin (work_dir opts) (run_name (gd_run_dir gd) N))
         \<and> run_dir (snd (create_run_dir w opts gd s)) = pjoin (work_dir opts) (run_name (gd_run_dir gd) N)
         \<and> fst (create_run_dir w opts gd s) = os_makedirs w (pjoin (work_dir opts) (run_name (gd_run_dir gd) N))
         \<and> (\<exists>rest. trace (snd (create_run_dir w opts gd s))
               = trace s @ map (\<lambda>k. Exists (pjoin (work_dir opts) (run_name (gd_run_dir gd) k))) [0..<Suc N]
                  @ [Makedirs (pjoin (work_dir opts) (run_name (gd_run_dir gd) N))] @ rest)"
proof -
  have p: "probe_run_dir (existing w) (work_dir opts) (gd_run_dir gd) 0
           = (map (\<lambda>k. pjoin (work_dir opts) (run_name (gd_run_dir gd) k)) [0..<Suc N],
              pjoin (work_dir opts) (run_name (gd_run_dir gd) N))"
    using assms by (intro probe_run_dir_first_free) auto
  show ?thesis
    unfolding p create_run_dir_def
    by (cases "os_makedirs w (pjoin (work_dir opts) (run_name (gd_run_dir gd) N))")
       (simp_all add: Let_def chdir_def emit_def comp_def del: upt_Suc)
qed

theorem run_dir_allocation_witness:
  "probe_run_dir [''/work/g1_run_1'', ''/work/g1_run_0''] ''/work'' ''g1'' 0
     = ([''/work/g1_run_0'', ''/work/g1_run_1'', ''/work/g1_run_2''], ''/work/g1_run_2'')
   \<and> run_dir (snd (create_run_dir
                      (example_world\<lparr>existing := [''/work/g1_run_1'', ''/work/g1_run_0'']\<rparr>)
                      example_options (example_granule ''g1'')
                      (initial_locals example_world (example_granule ''g1''))))
       = ''/work/g1_run_2''"
proof -
  let ?w = "example_world\<lparr>existing := [''/work/g1_run_1'', ''/work/g1_run_0'']\<rparr>"
  let ?gd = "example_granule ''g1''"
  have names: "pjoin (work_dir example_options) (run_name (gd_run_dir ?gd) 0) = ''/work/g1_run_0''"
    "pjoin (work_dir example_options) (run_name (gd_run_dir ?gd) 1) = ''/work/g1_run_1''"
    "pjoin (work_dir example_options) (run_name (gd_run_dir ?gd) (Suc 0)) = ''/work/g1_run_1''"
    "pjoin (work_dir example_options) (run_name (gd_run_dir ?gd) 2) = ''/work/g1_run_2''"
    by (simp_all add: example_defs pjoin_def run_name_def str_nat_values)
  have "k < 2 \<Longrightarrow> k = 0 \<or> k = 1" for k :: nat by auto
  then have h1: "\<forall>k<2. pjoin (work_dir example_options) (run_name (gd_run_dir ?gd) k) \<in> set (existing ?w)"
    using names by (auto simp: example_world_def)
  have h2: "pjoin (work_dir example_options) (run_name (gd_run_dir ?gd) 2) \<notin> set (existing ?w)"
    using names by (simp add: example_world_def)
  have upt: "[0..<Suc 2] = [0, 1, 2]" by (simp add: upt_rec)
  from run_dir_allocation [OF h1 h2, of "initial_locals example_world ?gd"] show ?thesis
    unfolding upt by (simp add: names) (simp add: example_defs)
qed

section \<open>The summary lists\<close>

lemma populate_lists_Inr:
  assumes "set ids \<subseteq> dom ex" and "set ids \<subseteq> dom pr"
  shows "populate_lists ex pr ids (a, s, c, p)
           = Inr (a @ ids,
                  s @ filter (\<lambda>g. ex g = Some 0 \<and> pr g = Some 0) ids,
                  c @ filter (\<lambda>g. ex g \<noteq> Some 0) ids,
                  p @ filter (\<lambda>g. pr g \<noteq> Some 0) ids)"
  using assms
proof (induction ids arbitrary: a s c p)
  case Nil
  then show ?case by simp
next
  case (Cons g ids)
  then obtain v u where v: "ex g = Some v" and u: "pr g = Some u" by auto
  from Cons.prems have sub: "set ids \<subseteq> dom ex" "set ids \<subseteq> dom pr" by auto
  show ?case using v u by (simp add: Cons.IH [OF sub])
qed

lemma populate_lists_keys:
  "populate_lists ex pr ids acc = Inr r \<Longrightarrow> set ids \<subseteq> dom ex \<and> set ids \<subseteq> dom pr"
proof (induction ids arbitrary: acc)
  case Nil
  then show ?case by simp
next
  case (Cons g ids)
  obtain a s c p where acc: "acc = (a, s, c, p)" by (cases acc)
  from Cons.prems show ?case
    unfolding acc by (auto split: option.splits dest: Cons.IH)
qed

lemma summary_Inr:
  assumes "set ids \<subseteq> dom ex" and "set ids \<subseteq> dom pr"
  shows "summary ex pr ids
           = Inr (sort (remdups ids),
                  sort (remdups (filter (\<lambda>g. ex g = Some 0 \<and> pr g = Some 0) ids)),
                  sort (remdups (filter (\<lambda>g. ex g \<noteq> Some 0) ids)),
                  sort (remdups (filter (\<lambda>g. pr g \<noteq> Some 0) ids)))"
  by (simp add: summary_def populate_lists_Inr [OF assms])

lemma summary_crashed:
  assumes "summary ex pr ids = Inr (attempted, successful, crashed, problem)"
  shows "set crashed = {g \<in> set ids. ex g \<noteq> Some 0}"
proof -
  from assms obtain r where "populate_lists ex pr ids ([], [], [], []) = Inr r"
    by (auto simp: summary_def split: sum.splits)
  then have "set ids \<subseteq> dom ex" "set ids \<subseteq> dom pr"
    using populate_lists_keys by blast+
  from summary_Inr [OF this] assms show ?thesis by auto
qed

text \<open>
  Claim C7. The summary is four lists of granule ids, each sorted and free of duplicates,
  computed from the two status dictionaries and the list of granule ids: attempted holds
  every granule id, successful those with execution status 0 and problem status 0,
  crashed those with a non-zero execution status, and problem those with a non-zero
  problem status whatever the execution status. (The lists exist when every granule id
  is a key of both dictionaries; otherwise the lookup raises \<^verbatim>\<open>KeyError\<close>.)
\<close>

theorem summary_lists:
  assumes "set ids \<subseteq> dom ex" and "set ids \<subseteq> dom pr"
  shows "\<exists>attempted successful crashed problem.
           summary ex pr ids = Inr (attempted, successful, crashed, problem)
         \<and> sorted attempted \<and> distinct attempted \<and> sorted successful \<and> distinct successful
         \<and> sorted crashed \<and> distinct crashed \<and> sorted problem \<and> distinct problem
         \<and> set attempted = set ids
         \<and> set successful = {g \<in> set ids. ex g = Some 0 \<and> pr g = Some 0}
         \<and> set crashed = {g \<in> set ids. ex g \<noteq> Some 0}
         \<and> set problem = {g \<in> set ids. pr g \<noteq> Some 0}"
  unfolding summary_Inr [OF assms] by simp

theorem summary_lists_witness:
  "summary [''g1'' \<mapsto> 0, ''g2'' \<mapsto> 1, ''g3'' \<mapsto> 0] [''g1'' \<mapsto> 0, ''g2'' \<mapsto> 0, ''g3'' \<mapsto> 1]
           [''g3'', ''g1'', ''g2'', ''g1'']
     = Inr ([''g1'', ''g2'', ''g3''], [''g1''], [''g2''], [''g3''])
   \<and> (\<exists>attempted successful crashed problem.
         summary [''g1'' \<mapsto> 0, ''g2'' \<mapsto> 1, ''g3'' \<mapsto> 0] [''g1'' \<mapsto> 0, ''g2'' \<mapsto> 0, ''g3'' \<mapsto> 1]
                 [''g3'', ''g1'', ''g2'', ''g1'']
           = Inr (attempted, successful, crashed, problem)
       \<and> set attempted = {''g1'', ''g2'', ''g3''} \<and> sorted attempted \<and> distinct attempted)"
proof -
  let ?ex = "[''g1'' \<mapsto> 0::int, ''g2'' \<mapsto> 1, ''g3'' \<mapsto> 0]"
  let ?pr = "[''g1'' \<mapsto> 0::int, ''g2'' \<mapsto> 0, ''g3'' \<mapsto> 1]"
  let ?ids = "[''g3'', ''g1'', ''g2'', ''g1'']"
  have h1: "set ?ids \<subseteq> dom ?ex" and h2: "set ?ids \<subseteq> dom ?pr" by simp_all
  have v: "summary ?ex ?pr ?ids = Inr ([''g1'', ''g2'', ''g3''], [''g1''], [''g2''], [''g3''])"
    by code_simp
  from summary_lists [OF h1 h2] v show ?thesis by auto
qed

section \<open>The keys of the dispatcher's result\<close>

lemma dom_collect_results:
  "dom (fst (collect_results rs (ex, pr))) = dom ex \<union> fst ` set rs
   \<and> dom (snd (collect_results rs (ex, pr))) = dom pr \<union> fst ` set rs"
  by (induction rs "(ex, pr)" arbitrary: ex pr rule: collect_results.induct) auto

lemma fst_afire_submitter: "fst (afire_submitter w a) = granule_id (arg_granule_dict a)"
  by (simp add: afire_submitter_def Let_def)

lemma map_fst_afire_tasks:
  "set keys \<subseteq> dom (map_of d) \<Longrightarrow> map fst (afire_tasks home d opts keys) = keys"
  by (induction keys) (auto split: option.splits)

lemma set_afire_tasks:
  "set (afire_tasks home d opts keys)
     = {(k, \<lparr>arg_granule_dict = gd, arg_afire_home = home, arg_afire_options = opts\<rparr>) | k gd.
          k \<in> set keys \<and> map_of d k = Some gd}"
  by (induction keys) (auto split: option.splits)

lemma submitted_ids:
  "(granule_id \<circ> arg_granule_dict \<circ> snd) ` set (submitted_tasks home d opts)
     = granule_id ` ran (map_of d)"
proof -
  have "set (sort (remdups (map fst d))) = dom (map_of d)"
    by (simp add: dom_map_of_conv_image_fst)
  then show ?thesis
    unfolding submitted_tasks_def set_afire_tasks
    by (auto simp: ran_def image_iff) force+
qed

text \<open>
  Claim C2. When the pool can be created (at least one CPU, and a requested number of
  CPUs that is unset or at least 1), the dispatcher returns two dictionaries, and the key
  set of each is the set of the granule ids of the submitted tasks. One task is submitted
  per key of the input dictionary, in sorted key order, so the submitted granule ids are
  those of the granules in the input dictionary.
\<close>

theorem dispatcher_keys:
  assumes "1 \<le> ncpu" and "num_cpu opts = None \<or> (\<exists>r. num_cpu opts = Some r \<and> 1 \<le> r)"
  shows "\<exists>rc_exe_dict rc_problem_dict.
           afire_dispatcher ncpu ws home d opts = Inr (rc_exe_dict, rc_problem_dict)
         \<and> dom rc_exe_dict = (granule_id \<circ> arg_granule_dict \<circ> snd) ` set (submitted_tasks home d opts)
         \<and> dom rc_problem_dict = (granule_id \<circ> arg_granule_dict \<circ> snd) ` set (submitted_tasks home d opts)
         \<and> map fst (submitted_tasks home d opts) = sort (remdups (map fst d))
         \<and> (granule_id \<circ> arg_granule_dict \<circ> snd) ` set (submitted_tasks home d opts)
             = granule_id ` ran (map_of d)"
proof -
  have pool: "\<exists>n. Pool (fst (cpus_to_use (num_cpu opts) ncpu)) = Inr n"
    using assms by (auto simp: Pool_def cpus_to_use_def split: if_splits)
  have keys: "map fst (submitted_tasks home d opts) = sort (remdups (map fst d))"
    unfolding submitted_tasks_def
    by (rule map_fst_afire_tasks) (simp add: dom_map_of_conv_image_fst)
  let ?rs = "map (\<lambda>(key, a). afire_submitter (ws key) a) (submitted_tasks home d opts)"
  have ids: "fst ` set ?rs = (granule_id \<circ> arg_granule_dict \<circ> snd) ` set (submitted_tasks home d opts)"
    by (auto simp: image_iff fst_afire_submitter split: prod.splits) (force simp: fst_afire_submitter)+
  obtain ex pr where c: "collect_results ?rs (Map.empty, Map.empty) = (ex, pr)"
    by (cases "collect_results ?rs (Map.empty, Map.empty)")
  have "dom ex = fst ` set ?rs" "dom pr = fst ` set ?rs"
    using dom_collect_results [of ?rs Map.empty Map.empty] c by simp_all
  with pool keys ids c submitted_ids [of home d opts] show ?thesis
    by (auto simp: afire_dispatcher_def Let_def)
qed

theorem dispatcher_keys_witness:
  "\<exists>rc_exe_dict rc_problem_dict.
     afire_dispatcher 4 (\<lambda>key. example_world) ''/opt/afire'' example_data example_options
       = Inr (rc_exe_dict, rc_problem_dict)
   \<and> dom rc_exe_dict = {''g1'', ''g2''} \<and> dom rc_problem_dict = {''g1'', ''g2''}"
proof -
  have h1: "(1::int) \<le> 4" by simp
  have h2: "num_cpu example_options = None \<or> (\<exists>r. num_cpu example_options = Some r \<and> 1 \<le> r)"
    by (simp add: example_options_def)
  have keys: "sort (remdups (map fst example_data)) = [''g1'', ''g2'']"
    by code_simp
  have tasks: "submitted_tasks ''/opt/afire'' example_data example_options
                 = [(''g1'', example_args ''g1''), (''g2'', example_args ''g2'')]"
    unfolding submitted_tasks_def keys by (simp add: example_data_def example_args_def)
  have ids: "(granule_id \<circ> arg_granule_dict \<circ> snd)
               ` set (submitted_tasks ''/opt/afire'' example_data example_options) = {''g1'', ''g2''}"
    unfolding tasks by (simp add: example_args_def example_granule_def)
  note d = dispatcher_keys [OF h1 h2, of "\<lambda>key. example_world" "''/opt/afire''" example_data,
                              unfolded ids]
  from d obtain ex pr where
    "afire_dispatcher 4 (\<lambda>key. example_world) ''/opt/afire'' example_data example_options = Inr (ex, pr)"
    "dom ex = {''g1'', ''g2''}" "dom pr = {''g1'', ''g2''}"
    by (elim exE conjE)
  then show ?thesis by (intro exI conjI)
qed

section \<open>The worker before the binary runs\<close>

lemma create_run_dir_locals:
  "rc_exe (snd (create_run_dir w opts gd s)) = rc_exe s"
  "rc_problem (snd (create_run_dir w opts gd s)) = rc_problem s"
  "exe_out (snd (create_run_dir w opts gd s)) = exe_out s"
  by (simp_all add: create_run_dir_def chdir_def emit_def Let_def split: prod.splits option.splits)

lemma create_run_dir_trace:
  assumes "\<And>p. \<not> P (Exists p)" and "\<And>p. \<not> P (Makedirs p)" and "\<And>p. \<not> P (Chdir p)"
  shows "list_ex P (trace (snd (create_run_dir w opts gd s))) = list_ex P (trace s)"
  using assms
  by (simp add: create_run_dir_def chdir_def emit_def Let_def list_ex_iff image_iff
           split: prod.splits option.splits) blast

lemma stage_ancillary_locals:
  "rc_exe (stage_ancillary w gd s) = rc_exe s"
  "rc_problem (stage_ancillary w gd s) = rc_problem s"
  "exe_out (stage_ancillary w gd s) = exe_out s"
  "run_dir (stage_ancillary w gd s) = run_dir s"
  "failed_ancillary (stage_ancillary w gd s) = staging_failed (get_lwm w)"
  by (simp_all add: stage_ancillary_def staging_failed_def emit_def split: sum.splits prod.splits)

lemma stage_ancillary_trace:
  assumes "\<not> P Get_lwm" and "\<And>g. \<not> P (Warn (Problem_generating_LWM g))"
  shows "list_ex P (trace (stage_ancillary w gd s)) = list_ex P (trace s)"
  using assms
  by (simp add: stage_ancillary_def emit_def split: sum.splits prod.splits)

lemma initial_locals_simps:
  "rc_exe (initial_locals w gd) = 0" "rc_problem (initial_locals w gd) = 0"
  "trace (initial_locals w gd) = []"
  by (simp_all add: initial_locals_def)

text \<open>
  Claim C4. When the worker has called the staging step and the step fails (a non-zero
  status or an exception), the worker returns \<^verbatim>\<open>problem_rc = 1\<close> and never calls the
  external binary.
\<close>

theorem staging_failure_stops:
  assumes "list_ex is_get_lwm (trace (afire_worker w a))"
      and "staging_failed (get_lwm w)"
  shows "rc_problem (afire_worker w a) = 1
       \<and> \<not> list_ex is_execute_binary (trace (afire_worker w a))
       \<and> fst (snd (snd (afire_submitter w a))) = 1"
proof -
  let ?gd = "arg_granule_dict a" and ?opts = "arg_afire_options a"
  let ?c = "create_run_dir w ?opts ?gd (initial_locals w ?gd)"
  obtain r s1 where c: "?c = (r, s1)" by (cases ?c)
  have s1: "rc_problem s1 = 0" "rc_exe s1 = 0"
    "\<not> list_ex is_get_lwm (trace s1)" "\<not> list_ex is_execute_binary (trace s1)"
    using create_run_dir_locals [of w ?opts ?gd "initial_locals w ?gd"]
          create_run_dir_trace [of is_get_lwm w ?opts ?gd "initial_locals w ?gd"]
          create_run_dir_trace [of is_execute_binary w ?opts ?gd "initial_locals w ?gd"]
    by (simp_all add: c initial_locals_simps)
  show ?thesis
  proof (cases r)
    case (Some e)
    then have "trace (afire_worker w a)
                 = trace s1 @ [Warn (General_warning (granule_id ?gd)), Chdir (os_getcwd w)]"
      by (simp add: afire_worker_def afire_body_def remove_run_dir_def c Let_def chdir_def emit_def)
    with s1 assms(1) show ?thesis by simp
  next
    case None
    let ?s2 = "stage_ancillary w ?gd s1"
    have s2: "failed_ancillary ?s2" "rc_exe ?s2 = 0"
      "\<not> list_ex is_execute_binary (trace ?s2)"
      using assms(2) s1 stage_ancillary_trace [of is_execute_binary w ?gd s1]
      by (simp_all add: stage_ancillary_locals)
    show ?thesis
      using s2 None
      by (simp add: afire_submitter_def afire_worker_def afire_body_def remove_run_dir_def c Let_def chdir_def emit_def)
  qed
qed

theorem staging_failure_stops_witness:
  "rc_problem (afire_worker (example_world\<lparr>get_lwm := Inr (1, ''/cache/lwm.nc'')\<rparr>) (example_args ''g1'')) = 1
   \<and> \<not> list_ex is_execute_binary
         (trace (afire_worker (example_world\<lparr>get_lwm := Inr (1, ''/cache/lwm.nc'')\<rparr>) (example_args ''g1'')))
   \<and> afire_submitter (example_world\<lparr>get_lwm := Inr (1, ''/cache/lwm.nc'')\<rparr>) (example_args ''g1'')
       = (''g1'', 0, 1, ''Finished the Active Fires granule g1'')"
proof -
  let ?w = "example_world\<lparr>get_lwm := Inr (1, ''/cache/lwm.nc'')\<rparr>"
  have h1: "list_ex is_get_lwm (trace (afire_worker ?w (example_args ''g1'')))"
    by code_simp
  have h2: "staging_failed (get_lwm ?w)"
    by (simp add: staging_failed_def)
  have v: "afire_submitter ?w (example_args ''g1'')
             = (''g1'', 0, 1, ''Finished the Active Fires granule g1'')"
    by code_simp
  from staging_failure_stops [OF h1 h2] v show ?thesis by simp
qed

text \<open>
  Claim C10. When the ancillary-only flag is set or the staging step fails, the binary is
  never called and the worker returns \<^verbatim>\<open>exec_rc = 0\<close>, the value of a clean exit of the
  binary; a granule with that execution status is not in the crashed list of the summary.
\<close>

theorem never_invoked_exec_rc_zero:
  assumes "ancillary_only (arg_afire_options a) \<or> staging_failed (get_lwm w)"
  shows "rc_exe (afire_worker w a) = 0
       \<and> \<not> list_ex is_execute_binary (trace (afire_worker w a))
       \<and> fst (snd (afire_submitter w a)) = 0
       \<and> (\<forall>ex pr ids attempted successful crashed problem.
             ex (granule_id (arg_granule_dict a)) = Some (fst (snd (afire_submitter w a)))
             \<longrightarrow> summary ex pr ids = Inr (attempted, successful, crashed, problem)
             \<longrightarrow> granule_id (arg_granule_dict a) \<notin> set crashed)"
proof -
  let ?gd = "arg_granule_dict a" and ?opts = "arg_afire_options a"
  let ?c = "create_run_dir w ?opts ?gd (initial_locals w ?gd)"
  obtain r s1 where c: "?c = (r, s1)" by (cases ?c)
  have s1: "rc_exe s1 = 0" "\<not> list_ex is_execute_binary (trace s1)"
    using create_run_dir_locals [of w ?opts ?gd "initial_locals w ?gd"]
          create_run_dir_trace [of is_execute_binary w ?opts ?gd "initial_locals w ?gd"]
    by (simp_all add: c initial_locals_simps)
  have "rc_exe (afire_worker w a) = 0
       \<and> \<not> list_ex is_execute_binary (trace (afire_worker w a))
       \<and> fst (snd (afire_submitter w a)) = 0"
  proof (cases r)
    case (Some e)
    then show ?thesis using s1
      by (simp add: afire_submitter_def afire_worker_def afire_body_def remove_run_dir_def c Let_def chdir_def emit_def)
  next
    case None
    let ?s2 = "stage_ancillary w ?gd s1"
    have s2: "failed_ancillary ?s2 = staging_failed (get_lwm w)" "rc_exe ?s2 = 0"
      "\<not> list_ex is_execute_binary (trace ?s2)"
      using s1 stage_ancillary_trace [of is_execute_binary w ?gd s1]
      by (simp_all add: stage_ancillary_locals)
    show ?thesis
      using s2 None assms
      by (auto simp add: afire_submitter_def afire_worker_def afire_body_def remove_run_dir_def c Let_def chdir_def emit_def
               split: option.splits)
  qed
  then show ?thesis
    by (auto dest: summary_crashed)
qed

theorem never_invoked_exec_rc_zero_witness:
  "fst (snd (afire_submitter (example_world\<lparr>get_lwm := Inl (OSError ''no LWM'')\<rparr>) (example_args ''g1''))) = 0
   \<and> \<not> list_ex is_execute_binary
         (trace (afire_worker (example_world\<lparr>get_lwm := Inl (OSError ''no LWM'')\<rparr>) (example_args ''g1'')))
   \<and> summary [''g1'' \<mapsto> 0] [''g1'' \<mapsto> 1] [''g1''] = Inr ([''g1''], [], [], [''g1''])"
proof -
  let ?w = "example_world\<lparr>get_lwm := Inl (OSError ''no LWM'')\<rparr>"
  have h: "ancillary_only (arg_afire_options (example_args ''g1'')) \<or> staging_failed (get_lwm ?w)"
    by (simp add: staging_failed_def)
  have v: "summary [''g1'' \<mapsto> 0] [''g1'' \<mapsto> 1] [''g1''] = Inr ([''g1''], [], [], [''g1''])"
    by code_simp
  from never_invoked_exec_rc_zero [OF h] v show ?thesis by simp
qed

section \<open>The worker after the binary has returned\<close>

lemma list_ex_map_Read_dataset [simp]:
  "list_ex is_open_text (map Read_dataset ks) = False"
  "list_ex is_read_nfire (map Read_dataset ks) = False"
  "list_ex is_post_problem (map Read_dataset ks) = False"
  "list_ex is_glob (map Read_dataset ks) = False"
  by (simp_all add: list_ex_iff image_iff)

lemma read_datasets_frame:
  "read_datasets w ds s = (r, s') \<Longrightarrow>
     rc_exe s' = rc_exe s \<and> rc_problem s' = rc_problem s \<and> exe_out s' = exe_out s
     \<and> run_dir s' = run_dir s \<and> (\<exists>ks. trace s' = trace s @ map Read_dataset ks)"
proof (induction ds arbitrary: s r s')
  case Nil
  then show ?case by auto
next
  case (Cons d ds)
  show ?case
  proof (cases "read_dataset w d")
    case (Inl e)
    with Cons.prems have "s' = emit (Read_dataset d) s" by simp
    then have t: "trace s' = trace s @ map Read_dataset [d]"
      and l: "rc_exe s' = rc_exe s" "rc_problem s' = rc_problem s" "exe_out s' = exe_out s"
        "run_dir s' = run_dir s"
      by (simp_all add: emit_def)
    from t l show ?thesis by blast
  next
    case (Inr n)
    obtain r2 s2 where r2: "read_datasets w ds (emit (Read_dataset d) s) = (r2, s2)"
      by (cases "read_datasets w ds (emit (Read_dataset d) s)")
    from Cons.prems Inr r2 have "s' = s2" by (auto split: sum.splits)
    from Cons.IH [OF r2] obtain ks where
      "rc_exe s2 = rc_exe s" "rc_problem s2 = rc_problem s" "exe_out s2 = exe_out s"
      "run_dir s2 = run_dir s" "trace s2 = trace s @ map Read_dataset (d # ks)"
      by (auto simp: emit_def)
    with \<open>s' = s2\<close> show ?thesis by blast
  qed
qed

lemma extract_fire_data_frame:
  assumes "extract_fire_data w names s = (r, s')"
  shows "rc_exe s' = rc_exe s \<and> rc_problem s' = rc_problem s \<and> exe_out s' = exe_out s
       \<and> run_dir s' = run_dir s \<and> (\<exists>ks. trace s' = trace s @ Read_nfire # map Read_dataset ks)
       \<and> (read_nfire w = Inr 0 \<longrightarrow> r = Inr (0, []))"
proof (cases "read_nfire w")
  case (Inl e)
  with assms have "s' = emit Read_nfire s" by (simp add: extract_fire_data_def)
  then have "trace s' = trace s @ Read_nfire # map Read_dataset []" by (simp add: emit_def)
  with \<open>s' = emit Read_nfire s\<close> Inl show ?thesis by (auto simp: emit_def)
next
  case (Inr n)
  show ?thesis
  proof (cases "n > 0")
    case False
    with assms Inr have "s' = emit Read_nfire s" "r = Inr (n, [])"
      by (simp_all add: extract_fire_data_def)
    moreover from this have "trace s' = trace s @ Read_nfire # map Read_dataset []"
      by (simp add: emit_def)
    ultimately show ?thesis using Inr by (auto simp: emit_def)
  next
    case True
    obtain r2 s2 where r2: "read_datasets w names (emit Read_nfire s) = (r2, s2)"
      by (cases "read_datasets w names (emit Read_nfire s)")
    from assms Inr True r2 have "s' = s2" by (auto simp: extract_fire_data_def split: sum.splits)
    from read_datasets_frame [OF r2] obtain ks where
      "rc_exe s2 = rc_exe s" "rc_problem s2 = rc_problem s" "exe_out s2 = exe_out s"
      "run_dir s2 = run_dir s" "trace s2 = trace s @ Read_nfire # map Read_dataset ks"
      by (auto simp: emit_def)
    with \<open>s' = s2\<close> Inr True show ?thesis by auto
  qed
qed

lemma move_outputs_frame:
  "rc_exe (move_outputs w wd fs s) = rc_exe s \<and> exe_out (move_outputs w wd fs s) = exe_out s
   \<and> run_dir (move_outputs w wd fs s) = run_dir s
   \<and> (problem_recorded gd s \<longrightarrow> problem_recorded gd (move_outputs w wd fs s))
   \<and> ((\<forall>f d. shutil_move w f d = None) \<longrightarrow> rc_problem (move_outputs w wd fs s) = rc_problem s)
   \<and> list_ex is_open_text (trace (move_outputs w wd fs s)) = list_ex is_open_text (trace s)
   \<and> list_ex is_read_nfire (trace (move_outputs w wd fs s)) = list_ex is_read_nfire (trace s)
   \<and> (list_ex P (trace s) \<longrightarrow> list_ex P (trace (move_outputs w wd fs s)))"
proof (induction fs arbitrary: s)
  case Nil
  then show ?case by simp
next
  case (Cons f fs)
  show ?case
  proof (cases "shutil_move w f wd")
    case None
    with Cons.IH [of "emit (Move f wd) s"] show ?thesis
      by (auto simp: emit_def problem_recorded_def)
  next
    case (Some e)
    with Cons.IH [of "emit (Warn (Problem_moving_output f)) ((emit (Move f wd) s)\<lparr>rc_problem := 1\<rparr>)"]
    show ?thesis
      by (auto simp: emit_def problem_recorded_def)
  qed
qed

lemma relocate_outputs_frame:
  "rc_exe (relocate_outputs w opts s) = rc_exe s \<and> exe_out (relocate_outputs w opts s) = exe_out s
   \<and> run_dir (relocate_outputs w opts s) = run_dir s
   \<and> (problem_recorded gd s \<longrightarrow> problem_recorded gd (relocate_outputs w opts s))
   \<and> ((\<forall>f d. shutil_move w f d = None) \<longrightarrow> rc_problem (relocate_outputs w opts s) = rc_problem s)
   \<and> list_ex is_open_text (trace (relocate_outputs w opts s)) = list_ex is_open_text (trace s)
   \<and> list_ex is_read_nfire (trace (relocate_outputs w opts s)) = list_ex is_read_nfire (trace s)
   \<and> (list_ex P (trace s) \<longrightarrow> list_ex P (trace (relocate_outputs w opts s)))
   \<and> list_ex is_glob (trace (relocate_outputs w opts s))"
proof -
  let ?p1 = "pjoin (run_dir s) ((if i_band opts then ''AFIMG'' else ''AFMOD'') @ ''*.'' @ ''nc'')"
  let ?p2 = "pjoin (run_dir s) ((if i_band opts then ''AFIMG'' else ''AFMOD'') @ ''*.txt'')"
  let ?s1 = "emit (Glob ?p2) (emit (Glob ?p1) s)"
  have r: "relocate_outputs w opts s = move_outputs w (work_dir opts) (glob w ?p1 @ glob w ?p2) ?s1"
    by (simp add: relocate_outputs_def Let_def)
  have g: "list_ex is_glob (trace ?s1)" by (simp add: emit_def)
  have s1: "problem_recorded gd s \<longrightarrow> problem_recorded gd ?s1"
    by (simp add: emit_def problem_recorded_def)
  from move_outputs_frame [of w "work_dir opts" "glob w ?p1 @ glob w ?p2" ?s1 gd P]
       move_outputs_frame [of w "work_dir opts" "glob w ?p1 @ glob w ?p2" ?s1 gd is_glob] g s1
  show ?thesis unfolding r by (auto simp: emit_def)
qed

lemma write_text_file_frame:
  assumes "write_text_file w txt fd s = (r, s')"
  shows "rc_exe s' = rc_exe s \<and> exe_out s' = exe_out s \<and> run_dir s' = run_dir s
       \<and> (problem_recorded gd s \<longrightarrow> problem_recorded gd s')
       \<and> list_ex is_read_nfire (trace s') = list_ex is_read_nfire (trace s)
       \<and> (list_ex P (trace s) \<longrightarrow> list_ex P (trace s'))"
  using assms
  by (auto simp: write_text_file_def emit_def Let_def problem_recorded_def split: option.splits)

lemma remove_if_exists_frame:
  assumes "remove_if_exists w p s = (r, s')"
  shows "rc_exe s' = rc_exe s \<and> exe_out s' = exe_out s \<and> run_dir s' = run_dir s
       \<and> rc_problem s' = rc_problem s
       \<and> list_ex is_post_problem (trace s') = list_ex is_post_problem (trace s)
       \<and> list_ex is_read_nfire (trace s') = list_ex is_read_nfire (trace s)
       \<and> list_ex is_open_text (trace s') = list_ex is_open_text (trace s)
       \<and> list_ex ((=) (Exists p)) (trace s')
       \<and> (list_ex P (trace s) \<longrightarrow> list_ex P (trace s'))"
  using assms
  by (auto simp: remove_if_exists_def emit_def split: if_splits)

lemma open_and_stamp_frame:
  assumes "open_and_stamp w old s = (r, s')"
  shows "rc_exe s' = rc_exe s \<and> exe_out s' = exe_out s \<and> run_dir s' = run_dir s
       \<and> rc_problem s' = rc_problem s
       \<and> list_ex is_post_problem (trace s') = list_ex is_post_problem (trace s)
       \<and> list_ex is_read_nfire (trace s') = list_ex is_read_nfire (trace s)
       \<and> list_ex is_open_text (trace s') = list_ex is_open_text (trace s)
       \<and> (list_ex P (trace s) \<longrightarrow> list_ex P (trace s'))"
  using assms
  by (auto simp: open_and_stamp_def emit_def split: option.splits)

lemma extract_fire_data_preds:
  assumes "extract_fire_data w names s = (r, s')"
  shows "rc_exe s' = rc_exe s \<and> exe_out s' = exe_out s \<and> run_dir s' = run_dir s
       \<and> rc_problem s' = rc_problem s
       \<and> list_ex is_post_problem (trace s') = list_ex is_post_problem (trace s)
       \<and> list_ex is_open_text (trace s') = list_ex is_open_text (trace s)
       \<and> (list_ex P (trace s) \<longrightarrow> list_ex P (trace s'))
       \<and> (read_nfire w = Inr 0 \<longrightarrow> r = Inr (0, []))"
proof -
  from extract_fire_data_frame [OF assms] obtain ks where
    l: "rc_exe s' = rc_exe s" "rc_problem s' = rc_problem s" "exe_out s' = exe_out s"
       "run_dir s' = run_dir s" "read_nfire w = Inr 0 \<longrightarrow> r = Inr (0, [])"
    and t: "trace s' = trace s @ Read_nfire # map Read_dataset ks"
    by blast
  from t have "list_ex is_post_problem (trace s') = list_ex is_post_problem (trace s)"
    "list_ex is_open_text (trace s') = list_ex is_open_text (trace s)"
    "list_ex P (trace s) \<longrightarrow> list_ex P (trace s')"
    by simp_all
  with l show ?thesis by blast
qed

lemma update_m_band_frame:
  assumes "update_m_band w old txt s = (r, s')"
  shows "rc_exe s' = rc_exe s \<and> exe_out s' = exe_out s \<and> run_dir s' = run_dir s
       \<and> (problem_recorded gd s \<longrightarrow> problem_recorded gd s')
       \<and> (read_nfire w = Inr 0 \<longrightarrow> list_ex is_open_text (trace s') = list_ex is_open_text (trace s))
       \<and> (read_nfire w = Inr 0 \<longrightarrow> list_ex is_read_nfire (trace s')
            \<longrightarrow> \<not> list_ex is_read_nfire (trace s) \<longrightarrow> r = None \<and> rc_problem s' = rc_problem s)
       \<and> (list_ex P (trace s) \<longrightarrow> list_ex P (trace s'))"
proof -
  let ?names = "[''FP_latitude'', ''FP_longitude'', ''FP_T13'', ''FP_confidence'', ''FP_power'']"
  obtain r1 s1 where o: "open_and_stamp w old s = (r1, s1)"
    by (cases "open_and_stamp w old s")
  note f1 = open_and_stamp_frame [OF o, of P]
  show ?thesis
  proof (cases r1)
    case (Some e)
    with assms o have "r = Some e" "s' = s1" by (simp_all add: update_m_band_def)
    with f1 show ?thesis by (simp add: problem_recorded_def)
  next
    case None
    obtain r2 s2 where e: "extract_fire_data w ?names s1 = (r2, s2)"
      by (cases "extract_fire_data w ?names s1")
    note f2 = extract_fire_data_preds [OF e, of P]
    have pr2: "problem_recorded gd s \<longrightarrow> problem_recorded gd s2"
      using f1 f2 by (simp add: problem_recorded_def)
    show ?thesis
    proof (cases r2)
      case (Inl x)
      with assms o e None have "r = Some x" "s' = s2" by (simp_all add: update_m_band_def)
      with f1 f2 pr2 Inl show ?thesis by simp
    next
      case (Inr nf)
      obtain n fd where nf: "nf = (n, fd)" by (cases nf)
      show ?thesis
      proof (cases "n > 0")
        case True
        with assms o e None Inr nf have wt: "write_text_file w txt fd s2 = (r, s')"
          by (simp add: update_m_band_def)
        note f3 = write_text_file_frame [OF wt, of gd P]
        from True Inr nf f2 have "read_nfire w \<noteq> Inr 0" by auto
        with f1 f2 f3 pr2 show ?thesis by simp
      next
        case False
        with assms o e None Inr nf have "r = None" "s' = s2" by (simp_all add: update_m_band_def)
        with f1 f2 pr2 show ?thesis by simp
      qed
    qed
  qed
qed

lemma update_i_band_frame:
  assumes "update_i_band w old txt s = (r, s')"
  shows "rc_exe s' = rc_exe s \<and> exe_out s' = exe_out s \<and> run_dir s' = run_dir s
       \<and> (problem_recorded gd s \<longrightarrow> problem_recorded gd s')
       \<and> (read_nfire w = Inr 0 \<longrightarrow> list_ex is_open_text (trace s') = list_ex is_open_text (trace s))
       \<and> (read_nfire w = Inr 0 \<longrightarrow> list_ex is_read_nfire (trace s')
            \<longrightarrow> \<not> list_ex is_read_nfire (trace s) \<longrightarrow> r = None \<and> rc_problem s' = rc_problem s)
       \<and> (list_ex P (trace s) \<longrightarrow> list_ex P (trace s'))"
proof -
  let ?names = "[''FP_latitude'', ''FP_longitude'', ''FP_T4'', ''FP_confidence'', ''FP_power'']"
  obtain r1 s1 where o: "open_and_stamp w old s = (r1, s1)"
    by (cases "open_and_stamp w old s")
  note f1 = open_and_stamp_frame [OF o, of P]
  show ?thesis
  proof (cases r1)
    case (Some e)
    with assms o have "r = Some e" "s' = s1" by (simp_all add: update_i_band_def)
    with f1 show ?thesis by (simp add: problem_recorded_def)
  next
    case None
    obtain r2 s2 where e: "extract_fire_data w ?names s1 = (r2, s2)"
      by (cases "extract_fire_data w ?names s1")
    note f2 = extract_fire_data_preds [OF e, of P]
    have pr2: "problem_recorded gd s \<longrightarrow> problem_recorded gd s2"
      using f1 f2 by (simp add: problem_recorded_def)
    show ?thesis
    proof (cases r2)
      case (Inl x)
      with assms o e None have "r = Some x" "s' = s2" by (simp_all add: update_i_band_def)
      with f1 f2 pr2 Inl show ?thesis by simp
    next
      case (Inr nf)
      obtain n fd where nf: "nf = (n, fd)" by (cases nf)
      show ?thesis
      proof (cases "n > 0")
        case True
        from True Inr nf f2 have nz: "read_nfire w \<noteq> Inr 0" by auto
        obtain r3 s3 where rm: "remove_if_exists w (replace_dev txt) s2 = (r3, s3)"
          by (cases "remove_if_exists w (replace_dev txt) s2")
        note f3 = remove_if_exists_frame [OF rm, of P]
        have pr3: "problem_recorded gd s \<longrightarrow> problem_recorded gd s3"
          using pr2 f3 by (simp add: problem_recorded_def)
        show ?thesis
        proof (cases r3)
          case (Some x)
          with assms o e None Inr nf True rm have "r = Some x" "s' = s3"
            by (simp_all add: update_i_band_def)
          with f1 f2 f3 pr3 nz show ?thesis by simp
        next
          case None3: None
          with assms o e None Inr nf True rm have wt: "write_text_file w txt fd s3 = (r, s')"
            by (simp add: update_i_band_def)
          note f4 = write_text_file_frame [OF wt, of gd P]
          with f1 f2 f3 pr3 nz show ?thesis by simp
        qed
      next
        case False
        with assms o e None Inr nf have "r = None" "s' = s2" by (simp_all add: update_i_band_def)
        with f1 f2 pr2 show ?thesis by simp
      qed
    qed
  qed
qed

lemma update_attributes_frame:
  assumes "update_attributes w opts gd s = (r, s')"
  shows "rc_exe s' = rc_exe s \<and> exe_out s' = exe_out s \<and> run_dir s' = run_dir s
       \<and> (problem_recorded gd s \<longrightarrow> problem_recorded gd s')
       \<and> (read_nfire w = Inr 0 \<longrightarrow> list_ex is_open_text (trace s') = list_ex is_open_text (trace s))
       \<and> (read_nfire w = Inr 0 \<longrightarrow> list_ex is_read_nfire (trace s')
            \<longrightarrow> \<not> list_ex is_read_nfire (trace s) \<longrightarrow> r = None \<and> rc_problem s' = rc_problem s)
       \<and> (list_ex P (trace s) \<longrightarrow> list_ex P (trace s'))
       \<and> (\<forall>afedr. entries gd ''AFEDR'' = Some afedr \<longrightarrow> r = None
             \<and> list_ex ((=) (Exists (splitext_root (pjoin (run_dir s) (entry_file afedr)) @ ''.txt'')))
                 (trace s'))"
proof (cases "entries gd ''AFEDR''")
  case None
  with assms have "r = Some (Exception ''UnboundLocalError: old_output_file'')"
    "s' = s\<lparr>rc_problem := 1\<rparr>"
    by (simp_all add: update_attributes_def)
  with None show ?thesis by (simp add: problem_recorded_def)
next
  case (Some afedr)
  let ?old = "pjoin (run_dir s) (entry_file afedr)"
  let ?txt = "splitext_root ?old @ ''.txt''"
  obtain r1 s1 where rm: "remove_if_exists w ?txt s = (r1, s1)"
    by (cases "remove_if_exists w ?txt s")
  note f1 = remove_if_exists_frame [OF rm, of P]
  have pr1: "problem_recorded gd s \<longrightarrow> problem_recorded gd s1"
    using f1 by (simp add: problem_recorded_def)
  show ?thesis
  proof (cases r1)
    case (Some x)
    with assms \<open>entries gd ''AFEDR'' = Some afedr\<close> rm have "r = None" "s' = repair_failed s1"
      by (simp_all add: update_attributes_def Let_def)
    with f1 \<open>entries gd ''AFEDR'' = Some afedr\<close> show ?thesis
      by (simp add: repair_failed_def emit_def problem_recorded_def)
  next
    case None
    let ?b = "if i_band opts then update_i_band w ?old ?txt s1 else update_m_band w ?old ?txt s1"
    obtain r2 s2 where b: "?b = (r2, s2)" by (cases ?b)
    have f2: "rc_exe s2 = rc_exe s1 \<and> exe_out s2 = exe_out s1 \<and> run_dir s2 = run_dir s1
       \<and> (problem_recorded gd s1 \<longrightarrow> problem_recorded gd s2)
       \<and> (read_nfire w = Inr 0 \<longrightarrow> list_ex is_open_text (trace s2) = list_ex is_open_text (trace s1))
       \<and> (read_nfire w = Inr 0 \<longrightarrow> list_ex is_read_nfire (trace s2)
            \<longrightarrow> \<not> list_ex is_read_nfire (trace s1) \<longrightarrow> r2 = None \<and> rc_problem s2 = rc_problem s1)
       \<and> (list_ex P (trace s) \<longrightarrow> list_ex P (trace s1) \<longrightarrow> list_ex P (trace s2))
       \<and> (list_ex ((=) (Exists ?txt)) (trace s1) \<longrightarrow> list_ex ((=) (Exists ?txt)) (trace s2))"
      using b update_i_band_frame [of w ?old ?txt s1 r2 s2 gd P]
            update_m_band_frame [of w ?old ?txt s1 r2 s2 gd P]
            update_i_band_frame [of w ?old ?txt s1 r2 s2 gd "(=) (Exists ?txt)"]
            update_m_band_frame [of w ?old ?txt s1 r2 s2 gd "(=) (Exists ?txt)"]
      by (cases "i_band opts") simp_all
    show ?thesis
    proof (cases r2)
      case None2: None
      with assms \<open>entries gd ''AFEDR'' = Some afedr\<close> rm None b have "r = None" "s' = s2"
        by (simp_all add: update_attributes_def Let_def)
      with f1 f2 pr1 \<open>entries gd ''AFEDR'' = Some afedr\<close> show ?thesis by simp
    next
      case (Some x)
      with assms \<open>entries gd ''AFEDR'' = Some afedr\<close> rm None b have "r = None" "s' = repair_failed s2"
        by (simp_all add: update_attributes_def Let_def)
      with f1 f2 Some \<open>entries gd ''AFEDR'' = Some afedr\<close> show ?thesis
        by (auto simp add: repair_failed_def emit_def problem_recorded_def)
    qed
  qed
qed

lemma post_process_frame:
  assumes "post_process w opts gd cd s = (r, s')"
  shows "rc_exe s' = rc_exe s \<and> exe_out s' = exe_out s \<and> run_dir s' = run_dir s
       \<and> (problem_recorded gd s \<longrightarrow> problem_recorded gd s')
       \<and> (read_nfire w = Inr 0 \<longrightarrow> list_ex is_open_text (trace s') = list_ex is_open_text (trace s))
       \<and> (read_nfire w = Inr 0 \<longrightarrow> list_ex is_read_nfire (trace s')
            \<longrightarrow> \<not> list_ex is_read_nfire (trace s) \<longrightarrow> (\<forall>f d. shutil_move w f d = None)
            \<longrightarrow> r = None \<and> rc_problem s' = rc_problem s)
       \<and> (list_ex P (trace s) \<longrightarrow> list_ex P (trace s'))
       \<and> ((\<forall>p. write_log w p = None) \<longrightarrow>
            (\<forall>afedr. entries gd ''AFEDR'' = Some afedr \<longrightarrow> r = None \<and> list_ex is_glob (trace s')
               \<and> list_ex ((=) (Exists (splitext_root (pjoin (run_dir s) (entry_file afedr)) @ ''.txt'')))
                   (trace s')))"
proof -
  let ?logpath = "pjoin (dirname (run_dir s)) (run_dir s @ ''_'' @ utcnow w @ ''.log'')"
  let ?s0 = "emit (Write_log ?logpath) (chdir cd s)"
  have s0: "rc_exe ?s0 = rc_exe s" "exe_out ?s0 = exe_out s" "run_dir ?s0 = run_dir s"
    "rc_problem ?s0 = rc_problem s" "problem_recorded gd ?s0 = problem_recorded gd s"
    "list_ex is_open_text (trace ?s0) = list_ex is_open_text (trace s)"
    "list_ex is_read_nfire (trace ?s0) = list_ex is_read_nfire (trace s)"
    "list_ex P (trace s) \<longrightarrow> list_ex P (trace ?s0)"
    by (simp_all add: emit_def chdir_def problem_recorded_def)
  show ?thesis
  proof (cases "write_log w ?logpath")
    case (Some e)
    with assms have "r = Some e" "s' = ?s0" by (simp_all add: post_process_def Let_def)
    with s0 Some show ?thesis by auto
  next
    case None
    obtain r1 s1 where u: "update_attributes w opts gd ?s0 = (r1, s1)"
      by (cases "update_attributes w opts gd ?s0")
    note f1 = update_attributes_frame [OF u, of P, unfolded s0]
    show ?thesis
    proof (cases r1)
      case (Some e)
      with assms None u have "r = Some e" "s' = s1" by (simp_all add: post_process_def Let_def)
      with f1 s0 Some show ?thesis by auto
    next
      case None1: None
      with assms None u have rs: "r = None" "s' = relocate_outputs w opts s1"
        by (simp_all add: post_process_def Let_def)
      note f2 = relocate_outputs_frame [of w opts s1 gd P]
      have f3: "list_ex ((=) (Exists x)) (trace s1)
                  \<longrightarrow> list_ex ((=) (Exists x)) (trace (relocate_outputs w opts s1))" for x
        using relocate_outputs_frame [of w opts s1 gd "(=) (Exists x)"] by blast
      from f1 f2 f3 s0 None1 show ?thesis unfolding rs by auto
    qed
  qed
qed

lemma remove_run_dir_frame:
  assumes "remove_run_dir w opts (r, s) = (r', s')"
  shows "rc_exe s' = rc_exe s \<and> exe_out s' = exe_out s \<and> run_dir s' = run_dir s
       \<and> rc_problem s' = rc_problem s \<and> problem_recorded gd s' = problem_recorded gd s
       \<and> (rc_exe s \<noteq> 0 \<longrightarrow> r' = r \<and> s' = s)
       \<and> ((\<forall>ps. \<not> P (Cleanup ps)) \<longrightarrow> list_ex P (trace s') = list_ex P (trace s))
       \<and> (list_ex P (trace s) \<longrightarrow> list_ex P (trace s'))"
  using assms
  by (cases r) (auto simp: remove_run_dir_def emit_def problem_recorded_def split: if_splits)

lemma afire_worker_frame:
  assumes "afire_body w a = (r, s)"
  shows "rc_exe (afire_worker w a) = rc_exe s \<and> exe_out (afire_worker w a) = exe_out s
       \<and> run_dir (afire_worker w a) = run_dir s \<and> rc_problem (afire_worker w a) = rc_problem s
       \<and> problem_recorded gd (afire_worker w a) = problem_recorded gd s
       \<and> ((\<forall>g. \<not> P (Warn (General_warning g))) \<longrightarrow> (\<forall>p. \<not> P (Chdir p))
            \<longrightarrow> list_ex P (trace (afire_worker w a)) = list_ex P (trace s))
       \<and> (list_ex P (trace s) \<longrightarrow> list_ex P (trace (afire_worker w a)))"
  using assms
  by (cases r) (auto simp: afire_worker_def emit_def chdir_def problem_recorded_def)

lemma worker_paths:
  assumes "\<And>p. \<not> P (Exists p)" and "\<And>p. \<not> P (Makedirs p)" and "\<And>p. \<not> P (Chdir p)"
      and "\<not> P Get_lwm" and "\<And>g. \<not> P (Warn (Problem_generating_LWM g))"
      and "\<And>g. \<not> P (Warn (Ancillary_granulation_failed g))"
      and "\<And>g. \<not> P (Warn (General_warning g))"
      and "\<And>rd ps. \<not> P (Link_files rd ps)" and "\<And>rd c. \<not> P (Execute_binary rd c)"
      and "\<And>ps. \<not> P (Cleanup ps)"
  shows "(rc_exe (afire_worker w a) = 0 \<and> \<not> list_ex P (trace (afire_worker w a)))
       \<or> (\<exists>s0. rc_problem s0 = 0 \<and> \<not> list_ex P (trace s0) \<and> list_ex is_execute_binary (trace s0)
               \<and> \<not> list_ex is_post_problem (trace s0)
               \<and> execute_binary w (run_dir s0) (cmd (arg_granule_dict a)) = Inr (rc_exe s0, exe_out s0)
               \<and> afire_body w a
                   = remove_run_dir w (arg_afire_options a)
                       (post_process w (arg_afire_options a) (arg_granule_dict a) (os_getcwd w) s0))"
proof -
  let ?gd = "arg_granule_dict a" and ?opts = "arg_afire_options a"
  let ?c = "create_run_dir w ?opts ?gd (initial_locals w ?gd)"
  obtain r s1 where c: "?c = (r, s1)" by (cases ?c)
  have s1: "rc_exe s1 = 0" "rc_problem s1 = 0" "\<not> list_ex P (trace s1)"
    "\<not> list_ex is_post_problem (trace s1)"
    using create_run_dir_locals [of w ?opts ?gd "initial_locals w ?gd"]
          create_run_dir_trace [of P w ?opts ?gd "initial_locals w ?gd"]
          create_run_dir_trace [of is_post_problem w ?opts ?gd "initial_locals w ?gd"] assms
    by (simp_all add: c initial_locals_simps)
  show ?thesis
  proof (cases r)
    case (Some e)
    then show ?thesis using s1 assms
      by (simp add: afire_worker_def afire_body_def c Let_def chdir_def emit_def)
  next
    case None
    let ?s2 = "stage_ancillary w ?gd s1"
    have s2: "rc_exe ?s2 = 0" "rc_problem ?s2 = 0" "\<not> list_ex P (trace ?s2)"
      "\<not> list_ex is_post_problem (trace ?s2)"
      using s1 stage_ancillary_trace [of P w ?gd s1]
            stage_ancillary_trace [of is_post_problem w ?gd s1] assms
      by (simp_all add: stage_ancillary_locals)
    show ?thesis
    proof (cases "ancillary_only ?opts \<or> failed_ancillary ?s2")
      case True
      then show ?thesis using None s2 assms
        by (auto simp add: afire_worker_def afire_body_def remove_run_dir_def c Let_def
                           chdir_def emit_def split: option.splits)
    next
      case False
      then have body: "afire_body w a
          = remove_run_dir w ?opts (run_active_fire w (arg_afire_home a) ?opts ?gd (os_getcwd w) ?s2)"
        using None by (simp add: afire_body_def c Let_def)
      let ?raf = "run_active_fire w (arg_afire_home a) ?opts ?gd (os_getcwd w) ?s2"
      have early: "rc_exe (afire_worker w a) = 0 \<and> \<not> list_ex P (trace (afire_worker w a))"
        if "?raf = (Some e, s3)" "rc_exe s3 = 0" "\<not> list_ex P (trace s3)" for e s3
        using that assms
        by (simp add: afire_worker_def body remove_run_dir_def chdir_def emit_def)
      show ?thesis
      proof (cases "lwm_file ?s2")
        case None
        then have "?raf = (Some (Exception ''UnboundLocalError: lwm_file''), ?s2)"
          by (simp add: run_active_fire_def)
        from early [OF this] s2 show ?thesis by simp
      next
        case (Some lwm)
        show ?thesis
        proof (cases "paths_to_link (arg_afire_home a) ?opts ?gd lwm")
          case (Inl e)
          with Some have "?raf = (Some e, ?s2)" by (simp add: run_active_fire_def)
          from early [OF this] s2 show ?thesis by simp
        next
          case (Inr paths)
          let ?s3 = "emit (Link_files (run_dir ?s2) paths) ?s2"
          have s3: "rc_exe ?s3 = 0" "rc_problem ?s3 = 0" "\<not> list_ex P (trace ?s3)"
            "\<not> list_ex is_post_problem (trace ?s3)"
            using s2 assms by (simp_all add: emit_def)
          show ?thesis
          proof (cases "link_files w (run_dir ?s2) paths")
            case (Inl e)
            with Some Inr have "?raf = (Some e, ?s3)" by (simp add: run_active_fire_def)
            from early [OF this] s3 show ?thesis by simp
          next
            case Inr2: (Inr n)
            let ?s4 = "emit (Execute_binary (run_dir ?s2) (cmd ?gd)) ?s3"
            have s4: "rc_exe ?s4 = 0" "rc_problem ?s4 = 0" "\<not> list_ex P (trace ?s4)"
              "\<not> list_ex is_post_problem (trace ?s4)" "list_ex is_execute_binary (trace ?s4)"
              "run_dir ?s4 = run_dir ?s2"
              using s3 assms by (simp_all add: emit_def)
            show ?thesis
            proof (cases "execute_binary w (run_dir ?s2) (cmd ?gd)")
              case (Inl e)
              with Some Inr Inr2 have "?raf = (Some e, ?s4)"
                by (simp add: run_active_fire_def Let_def)
              from early [OF this] s4 show ?thesis by simp
            next
              case Inr3: (Inr ro)
              obtain rc out where ro: "ro = (rc, out)" by (cases ro)
              let ?s0 = "?s4\<lparr>rc_exe := rc, exe_out := out\<rparr>"
              from Some Inr Inr2 Inr3 ro
              have "?raf = post_process w ?opts ?gd (os_getcwd w) ?s0"
                by (simp add: run_active_fire_def Let_def)
              with body have "afire_body w a
                   = remove_run_dir w ?opts (post_process w ?opts ?gd (os_getcwd w) ?s0)"
                by simp
              moreover have "rc_problem ?s0 = 0" "\<not> list_ex P (trace ?s0)"
                "list_ex is_execute_binary (trace ?s0)" "\<not> list_ex is_post_problem (trace ?s0)"
                "execute_binary w (run_dir ?s0) (cmd ?gd) = Inr (rc_exe ?s0, exe_out ?s0)"
                using s4 Inr3 ro by simp_all
              ultimately show ?thesis by blast
            qed
          qed
        qed
      qed
    qed
  qed
qed

lemma list_ex_disj:
  "list_ex (\<lambda>e. A e \<or> B e) xs = (list_ex A xs \<or> list_ex B xs)"
  by (auto simp: list_ex_iff)

text \<open>
  Claim C8. When the worker has read the record count of the output container (so the
  binary was executed) and the count is zero, the worker never opens a text report file;
  and if, besides, no move of an output file fails, it returns \<^verbatim>\<open>problem_rc = 0\<close>.
\<close>

theorem zero_records_no_report:
  assumes "list_ex is_read_nfire (trace (afire_worker w a))" and "read_nfire w = Inr 0"
  shows "list_ex is_execute_binary (trace (afire_worker w a))
       \<and> \<not> list_ex is_open_text (trace (afire_worker w a))
       \<and> ((\<forall>f d. shutil_move w f d = None)
            \<longrightarrow> rc_problem (afire_worker w a) = 0 \<and> fst (snd (snd (afire_submitter w a))) = 0)"
proof -
  let ?gd = "arg_granule_dict a" and ?opts = "arg_afire_options a"
  let ?P = "\<lambda>e. is_read_nfire e \<or> is_open_text e"
  from worker_paths [of ?P w a] assms(1)
  obtain s0 where s0: "rc_problem s0 = 0" "\<not> list_ex ?P (trace s0)"
      "list_ex is_execute_binary (trace s0)"
      "afire_body w a = remove_run_dir w ?opts (post_process w ?opts ?gd (os_getcwd w) s0)"
    by (auto simp: list_ex_disj)
  obtain r1 s1 where pp: "post_process w ?opts ?gd (os_getcwd w) s0 = (r1, s1)"
    by (cases "post_process w ?opts ?gd (os_getcwd w) s0")
  obtain r2 s2 where rr: "remove_run_dir w ?opts (r1, s1) = (r2, s2)"
    by (cases "remove_run_dir w ?opts (r1, s1)")
  have body: "afire_body w a = (r2, s2)" using s0(4) pp rr by simp
  note f1 = post_process_frame [OF pp, of is_execute_binary]
  note f2 = remove_run_dir_frame [OF rr, of ?gd is_execute_binary]
  note f2o = remove_run_dir_frame [OF rr, of ?gd is_open_text]
  note f2n = remove_run_dir_frame [OF rr, of ?gd is_read_nfire]
  note f3 = afire_worker_frame [OF body, of ?gd is_execute_binary]
  note f3o = afire_worker_frame [OF body, of ?gd is_open_text]
  note f3n = afire_worker_frame [OF body, of ?gd is_read_nfire]
  from s0(2) have n0: "\<not> list_ex is_read_nfire (trace s0)" "\<not> list_ex is_open_text (trace s0)"
    by (simp_all add: list_ex_disj)
  have exe: "list_ex is_execute_binary (trace (afire_worker w a))"
    using s0(3) f1 f2 f3 by blast
  have no_text: "\<not> list_ex is_open_text (trace (afire_worker w a))"
    using n0(2) assms(2) f1 f2o f3o by simp
  have rd1: "list_ex is_read_nfire (trace s1)"
    using assms(1) f2n f3n by simp
  have "rc_problem (afire_worker w a) = 0" if "\<forall>f d. shutil_move w f d = None"
    using that rd1 n0(1) assms(2) s0(1) f1 f2 f3 by simp
  then have "(\<forall>f d. shutil_move w f d = None)
            \<longrightarrow> rc_problem (afire_worker w a) = 0 \<and> fst (snd (snd (afire_submitter w a))) = 0"
    by (simp add: afire_submitter_def Let_def)
  with exe no_text show ?thesis by blast
qed

theorem zero_records_no_report_witness:
  "afire_submitter example_world (example_args ''g1'') = (''g1'', 0, 0, ''done'')
   \<and> list_ex is_execute_binary (trace (afire_worker example_world (example_args ''g1'')))
   \<and> \<not> list_ex is_open_text (trace (afire_worker example_world (example_args ''g1'')))"
proof -
  have h1: "list_ex is_read_nfire (trace (afire_worker example_world (example_args ''g1'')))"
    by code_simp
  have h2: "read_nfire example_world = Inr 0"
    by (simp add: example_world_def)
  have v: "afire_submitter example_world (example_args ''g1'') = (''g1'', 0, 0, ''done'')"
    by code_simp
  from zero_records_no_report [OF h1 h2] v show ?thesis by simp
qed

lemma read_datasets_isl:
  "read_datasets w ds s = (r, s') \<Longrightarrow> isl r = datasets_raise w ds"
proof (induction ds arbitrary: s r s')
  case Nil
  then show ?case by (auto simp: datasets_raise_def)
next
  case (Cons d ds)
  show ?case
  proof (cases "read_dataset w d")
    case (Inl e)
    with Cons.prems show ?thesis by (auto simp: datasets_raise_def)
  next
    case (Inr n)
    obtain r2 s2 where r2: "read_datasets w ds (emit (Read_dataset d) s) = (r2, s2)"
      by (cases "read_datasets w ds (emit (Read_dataset d) s)")
    from Cons.IH [OF r2] have ih: "isl r2 = datasets_raise w ds" .
    from Cons.prems Inr r2 have "isl r = isl r2" by (auto split: sum.splits)
    with ih Inr show ?thesis by (simp add: datasets_raise_def)
  qed
qed

lemma extract_fire_data_exact:
  assumes "extract_fire_data w names s = (r, s')"
  shows "(isl r = (case read_nfire w of Inl e \<Rightarrow> True | Inr n \<Rightarrow> n > 0 \<and> datasets_raise w names))
       \<and> (\<forall>n fd. r = Inr (n, fd) \<longrightarrow> read_nfire w = Inr n)
       \<and> Read_nfire \<in> set (trace s')"
proof -
  from extract_fire_data_frame [OF assms] have t: "Read_nfire \<in> set (trace s')" by auto
  show ?thesis
  proof (cases "read_nfire w")
    case (Inl e)
    with assms t show ?thesis by (auto simp: extract_fire_data_def)
  next
    case (Inr n)
    show ?thesis
    proof (cases "n > 0")
      case False
      with assms Inr t show ?thesis by (auto simp: extract_fire_data_def)
    next
      case True
      obtain r2 s2 where r2: "read_datasets w names (emit Read_nfire s) = (r2, s2)"
        by (cases "read_datasets w names (emit Read_nfire s)")
      note i = read_datasets_isl [OF r2]
      from assms Inr True r2 have "isl r = isl r2" "\<forall>n' fd. r = Inr (n', fd) \<longrightarrow> n' = n"
        by (auto simp: extract_fire_data_def split: sum.splits)
      with i Inr True t show ?thesis by simp
    qed
  qed
qed

lemma move_outputs_rc:
  "rc_problem (move_outputs w wd fs s) = (if move_raises w wd fs then 1 else rc_problem s)"
proof (induction fs arbitrary: s)
  case Nil
  then show ?case by (simp add: move_raises_def)
next
  case (Cons f fs)
  show ?case
  proof (cases "shutil_move w f wd")
    case None
    then show ?thesis by (simp add: Cons.IH move_raises_def emit_def)
  next
    case (Some e)
    then show ?thesis by (simp add: Cons.IH move_raises_def emit_def)
  qed
qed

lemma move_outputs_moves:
  "set (trace s) \<subseteq> set (trace (move_outputs w wd fs s))
   \<and> (\<lambda>f. Move f wd) ` set fs \<subseteq> set (trace (move_outputs w wd fs s))"
proof (induction fs arbitrary: s)
  case Nil
  then show ?case by simp
next
  case (Cons f fs)
  let ?s1 = "case shutil_move w f wd of
               None \<Rightarrow> emit (Move f wd) s
             | Some e \<Rightarrow> emit (Warn (Problem_moving_output f)) ((emit (Move f wd) s)\<lparr>rc_problem := 1\<rparr>)"
  have a: "set (trace s) \<subseteq> set (trace ?s1)" and b: "Move f wd \<in> set (trace ?s1)"
    by (simp_all add: emit_def subset_iff split: option.splits)
  have m: "move_outputs w wd (f # fs) s = move_outputs w wd fs ?s1" by simp
  from Cons.IH [of ?s1] have c: "set (trace ?s1) \<subseteq> set (trace (move_outputs w wd fs ?s1))"
    and d: "(\<lambda>f. Move f wd) ` set fs \<subseteq> set (trace (move_outputs w wd fs ?s1))"
    by blast+
  from a c have "set (trace s) \<subseteq> set (trace (move_outputs w wd fs ?s1))" by (rule subset_trans)
  moreover from b c d have "(\<lambda>f. Move f wd) ` set (f # fs) \<subseteq> set (trace (move_outputs w wd fs ?s1))"
    by auto
  ultimately show ?case unfolding m by blast
qed

lemma relocate_outputs_exact:
  "rc_problem (relocate_outputs w opts s)
     = (if move_raises w (work_dir opts) (outfiles w opts (run_dir s)) then 1 else rc_problem s)
   \<and> set (trace s) \<subseteq> set (trace (relocate_outputs w opts s))
   \<and> (\<lambda>f. Move f (work_dir opts)) ` set (outfiles w opts (run_dir s))
       \<subseteq> set (trace (relocate_outputs w opts s))
   \<and> list_ex is_glob (trace (relocate_outputs w opts s))"
proof -
  let ?p1 = "pjoin (run_dir s) ((if i_band opts then ''AFIMG'' else ''AFMOD'') @ ''*.nc'')"
  let ?p2 = "pjoin (run_dir s) ((if i_band opts then ''AFIMG'' else ''AFMOD'') @ ''*.txt'')"
  let ?s1 = "emit (Glob ?p2) (emit (Glob ?p1) s)"
  let ?fs = "outfiles w opts (run_dir s)"
  have r: "relocate_outputs w opts s = move_outputs w (work_dir opts) ?fs ?s1"
    by (simp add: relocate_outputs_def outfiles_def Let_def)
  have s1: "rc_problem ?s1 = rc_problem s" and s1t: "set (trace s) \<subseteq> set (trace ?s1)"
    by (simp_all add: emit_def subset_iff)
  have c1: "rc_problem (relocate_outputs w opts s) = (if move_raises w (work_dir opts) ?fs then 1 else rc_problem s)"
    unfolding r using move_outputs_rc [of w "work_dir opts" ?fs ?s1] s1 by simp
  from move_outputs_moves [of ?s1 w "work_dir opts" ?fs]
  have m1: "set (trace ?s1) \<subseteq> set (trace (relocate_outputs w opts s))"
    and c3: "(\<lambda>f. Move f (work_dir opts)) ` set ?fs \<subseteq> set (trace (relocate_outputs w opts s))"
    unfolding r by blast+
  from s1t m1 have c2: "set (trace s) \<subseteq> set (trace (relocate_outputs w opts s))"
    by (rule subset_trans)
  have c4: "list_ex is_glob (trace (relocate_outputs w opts s))"
    using relocate_outputs_frame [of w opts s undefined is_glob] by blast
  from c1 c2 c3 c4 show ?thesis by blast
qed

lemma remove_if_exists_exact:
  assumes "remove_if_exists w p s = (r, s')"
  shows "(r \<noteq> None) = (exists_after w p \<and> os_remove w p \<noteq> None)
       \<and> rc_problem s' = rc_problem s \<and> run_dir s' = run_dir s
       \<and> set (trace s) \<subseteq> set (trace s') \<and> Exists p \<in> set (trace s')"
proof (cases "exists_after w p")
  case True
  with assms show ?thesis by (auto simp: remove_if_exists_def emit_def)
next
  case False
  with assms show ?thesis by (auto simp: remove_if_exists_def emit_def)
qed

lemma open_and_stamp_exact:
  assumes "open_and_stamp w old s = (r, s')"
  shows "(r \<noteq> None) = (open_container w old \<noteq> None \<or> stamp_attributes w old \<noteq> None)
       \<and> rc_problem s' = rc_problem s
       \<and> set (trace s) \<subseteq> set (trace s') \<and> Open_container old \<in> set (trace s')
       \<and> (open_container w old = None \<longrightarrow> Stamp_attributes old \<in> set (trace s'))"
proof (cases "open_container w old")
  case None
  with assms show ?thesis by (auto simp: open_and_stamp_def emit_def)
next
  case (Some e)
  with assms have rs: "r = Some e" "s' = emit (Open_container old) s"
    by (simp_all add: open_and_stamp_def)
  show ?thesis unfolding rs by (simp add: Some emit_def subset_iff)
qed

lemma write_text_file_exact:
  assumes "write_text_file w txt fd s = (r, s')"
  shows "(r \<noteq> None) = (open_text w txt \<noteq> None)
       \<and> rc_problem s' = (if open_text w txt = None \<and> write_text w txt \<noteq> None then 1 else rc_problem s)
       \<and> set (trace s) \<subseteq> set (trace s') \<and> Open_text txt \<in> set (trace s')
       \<and> (open_text w txt = None \<longrightarrow> list_ex is_write_text (trace s'))"
proof (cases "open_text w txt")
  case (Some e)
  with assms show ?thesis by (auto simp: write_text_file_def emit_def Let_def)
next
  case None
  show ?thesis
  proof (cases "write_text w txt")
    case None2: None
    with assms None show ?thesis by (auto simp: write_text_file_def emit_def Let_def)
  next
    case (Some e)
    with assms None show ?thesis by (auto simp: write_text_file_def emit_def Let_def)
  qed
qed

lemma extract_fire_data_subset:
  assumes "extract_fire_data w names s = (r, s')"
  shows "rc_problem s' = rc_problem s \<and> set (trace s) \<subseteq> set (trace s')"
  using extract_fire_data_frame [OF assms] by auto

lemma list_ex_is_write_text_mono:
  "set tr \<subseteq> set tr' \<Longrightarrow> list_ex is_write_text tr \<Longrightarrow> list_ex is_write_text tr'"
  by (auto simp: list_ex_iff)

lemma report_attempted_mono:
  "set tr \<subseteq> set tr' \<Longrightarrow> report_attempted w iband txt tr \<Longrightarrow> report_attempted w iband txt tr'"
  unfolding report_attempted_def
  by (auto simp: list_all_iff split: sum.splits if_splits dest: list_ex_is_write_text_mono)

lemma container_attempted_mono:
  "set tr \<subseteq> set tr' \<Longrightarrow> container_attempted w iband old txt tr
     \<Longrightarrow> container_attempted w iband old txt tr'"
  unfolding container_attempted_def
  by (auto split: if_splits dest: report_attempted_mono)

lemma repair_attempted_mono:
  "set tr \<subseteq> set tr' \<Longrightarrow> repair_attempted w iband old txt tr
     \<Longrightarrow> repair_attempted w iband old txt tr'"
  unfolding repair_attempted_def
  by (auto split: if_splits dest: container_attempted_mono)

lemma read_datasets_all:
  "read_datasets w ds s = (Inr x, s') \<Longrightarrow>
     set (trace s) \<subseteq> set (trace s') \<and> Read_dataset ` set ds \<subseteq> set (trace s')"
proof (induction ds arbitrary: s x s')
  case Nil
  then show ?case by simp
next
  case (Cons d ds)
  show ?case
  proof (cases "read_dataset w d")
    case (Inl e)
    with Cons.prems show ?thesis by simp
  next
    case (Inr n)
    obtain r2 s2 where r2: "read_datasets w ds (emit (Read_dataset d) s) = (r2, s2)"
      by (cases "read_datasets w ds (emit (Read_dataset d) s)")
    from Cons.prems Inr r2 obtain y where y: "r2 = Inr y" "s' = s2"
      by (auto split: sum.splits)
    from Cons.IH [OF r2 [unfolded y(1)]]
    have "set (trace (emit (Read_dataset d) s)) \<subseteq> set (trace s2)"
      "Read_dataset ` set ds \<subseteq> set (trace s2)" by blast+
    then show ?thesis unfolding y(2) by (auto simp: emit_def)
  qed
qed

lemma extract_fire_data_all:
  assumes "extract_fire_data w names s = (Inr (n, fd), s')" and "n > 0"
  shows "list_all (\<lambda>d. Read_dataset d \<in> set (trace s')) names"
proof -
  from extract_fire_data_exact [OF assms(1)] have rn: "read_nfire w = Inr n" by simp
  obtain r2 s2 where r2: "read_datasets w names (emit Read_nfire s) = (r2, s2)"
    by (cases "read_datasets w names (emit Read_nfire s)")
  from assms rn r2 obtain y where y: "r2 = Inr y" "s' = s2"
    by (auto simp: extract_fire_data_def split: sum.splits)
  from read_datasets_all [OF r2 [unfolded y(1)]] show ?thesis
    unfolding y(2) by (auto simp: list_all_iff)
qed

lemma update_m_band_exact:
  assumes "update_m_band w old txt s = (r, s')"
  shows "(r \<noteq> None)
           = (open_container w old \<noteq> None \<or> stamp_attributes w old \<noteq> None
              \<or> (case read_nfire w of
                    Inl e \<Rightarrow> True
                  | Inr n \<Rightarrow> n > 0 \<and> (datasets_raise w (fire_datasets False) \<or> open_text w txt \<noteq> None)))
       \<and> rc_problem s'
           = (if r = None \<and> (case read_nfire w of Inl e \<Rightarrow> False | Inr n \<Rightarrow> n > 0 \<and> write_text w txt \<noteq> None)
              then 1 else rc_problem s)
       \<and> set (trace s) \<subseteq> set (trace s')
       \<and> container_attempted w False old txt (trace s')"
proof -
  let ?names = "[''FP_latitude'', ''FP_longitude'', ''FP_T13'', ''FP_confidence'', ''FP_power'']"
  have names: "fire_datasets False = ?names" by (simp add: fire_datasets_def)
  obtain r1 s1 where o: "open_and_stamp w old s = (r1, s1)"
    by (cases "open_and_stamp w old s")
  note f1 = open_and_stamp_exact [OF o]
  show ?thesis
  proof (cases r1)
    case (Some e)
    with assms o have "r = Some e" "s' = s1" by (simp_all add: update_m_band_def)
    with f1 Some show ?thesis by (auto simp: container_attempted_def)
  next
    case None
    with f1 have ok: "open_container w old = None" "stamp_attributes w old = None" by auto
    obtain r2 s2 where e: "extract_fire_data w ?names s1 = (r2, s2)"
      by (cases "extract_fire_data w ?names s1")
    note f2 = extract_fire_data_exact [OF e, folded names]
    note g2 = extract_fire_data_subset [OF e]
    from f1 g2 f2 ok have sub2: "set (trace s) \<subseteq> set (trace s2)" "Open_container old \<in> set (trace s2)"
      "Stamp_attributes old \<in> set (trace s2)" "rc_problem s2 = rc_problem s"
      "Read_nfire \<in> set (trace s2)"
      by auto
    show ?thesis
    proof (cases r2)
      case (Inl x)
      with assms o e None have rs: "r = Some x" "s' = s2" by (simp_all add: update_m_band_def)
      from f2 Inl have c: "(case read_nfire w of Inl e \<Rightarrow> True
                            | Inr n \<Rightarrow> n > 0 \<and> datasets_raise w (fire_datasets False))"
        by simp
      then have "report_attempted w False txt (trace s2)"
        by (auto simp: report_attempted_def split: sum.splits)
      moreover from c have "(case read_nfire w of Inl e \<Rightarrow> True
               | Inr n \<Rightarrow> n > 0 \<and> (datasets_raise w (fire_datasets False) \<or> open_text w txt \<noteq> None))"
        by (auto split: sum.splits)
      ultimately show ?thesis using rs sub2 ok by (simp add: container_attempted_def)
    next
      case (Inr nf)
      obtain n fd where nf: "nf = (n, fd)" by (cases nf)
      from f2 Inr nf have rn: "read_nfire w = Inr n" and nd: "\<not> (n > 0 \<and> datasets_raise w (fire_datasets False))"
        by auto
      show ?thesis
      proof (cases "n > 0")
        case True
        with assms o e None Inr nf have wt: "write_text_file w txt fd s2 = (r, s')"
          by (simp add: update_m_band_def)
        note f3 = write_text_file_exact [OF wt]
        from extract_fire_data_all [OF e [unfolded Inr nf] True, folded names]
        have all2: "list_all (\<lambda>d. Read_dataset d \<in> set (trace s2)) (fire_datasets False)" .
        from f3 have sub3: "set (trace s2) \<subseteq> set (trace s')" by blast
        from all2 sub3 have all3: "list_all (\<lambda>d. Read_dataset d \<in> set (trace s')) (fire_datasets False)"
          by (auto simp: list_all_iff)
        have rep: "report_attempted w False txt (trace s')"
          using rn True nd all3 f3 by (simp add: report_attempted_def)
        from sub2 sub3 have ev: "set (trace s) \<subseteq> set (trace s')" "Open_container old \<in> set (trace s')"
          "Stamp_attributes old \<in> set (trace s')" "Read_nfire \<in> set (trace s')"
          by auto
        have ca: "container_attempted w False old txt (trace s')"
          using ev rep ok by (simp add: container_attempted_def)
        from f3 sub2 rn nd True ok ev ca show ?thesis by auto
      next
        case False
        with assms o e None Inr nf have rs: "r = None" "s' = s2" by (simp_all add: update_m_band_def)
        have rep: "report_attempted w False txt (trace s2)"
          using rn False by (simp add: report_attempted_def)
        with rs sub2 rn False ok show ?thesis by (simp add: container_attempted_def)
      qed
    qed
  qed
qed

lemma update_i_band_exact:
  assumes "update_i_band w old txt s = (r, s')"
  shows "(r \<noteq> None)
           = (open_container w old \<noteq> None \<or> stamp_attributes w old \<noteq> None
              \<or> (case read_nfire w of
                    Inl e \<Rightarrow> True
                  | Inr n \<Rightarrow> n > 0 \<and> (datasets_raise w (fire_datasets True)
                               \<or> (exists_after w (replace_dev txt) \<and> os_remove w (replace_dev txt) \<noteq> None)
                               \<or> open_text w txt \<noteq> None)))
       \<and> rc_problem s'
           = (if r = None \<and> (case read_nfire w of Inl e \<Rightarrow> False | Inr n \<Rightarrow> n > 0 \<and> write_text w txt \<noteq> None)
              then 1 else rc_problem s)
       \<and> set (trace s) \<subseteq> set (trace s')
       \<and> container_attempted w True old txt (trace s')"
proof -
  let ?names = "[''FP_latitude'', ''FP_longitude'', ''FP_T4'', ''FP_confidence'', ''FP_power'']"
  let ?nasa = "exists_after w (replace_dev txt) \<and> os_remove w (replace_dev txt) \<noteq> None"
  have names: "fire_datasets True = ?names" by (simp add: fire_datasets_def)
  obtain r1 s1 where o: "open_and_stamp w old s = (r1, s1)"
    by (cases "open_and_stamp w old s")
  note f1 = open_and_stamp_exact [OF o]
  show ?thesis
  proof (cases r1)
    case (Some e)
    with assms o have "r = Some e" "s' = s1" by (simp_all add: update_i_band_def)
    with f1 Some show ?thesis by (auto simp: container_attempted_def)
  next
    case None
    with f1 have ok: "open_container w old = None" "stamp_attributes w old = None" by auto
    obtain r2 s2 where e: "extract_fire_data w ?names s1 = (r2, s2)"
      by (cases "extract_fire_data w ?names s1")
    note f2 = extract_fire_data_exact [OF e, folded names]
    note g2 = extract_fire_data_subset [OF e]
    from f1 g2 f2 ok have sub2: "set (trace s) \<subseteq> set (trace s2)" "Open_container old \<in> set (trace s2)"
      "Stamp_attributes old \<in> set (trace s2)" "rc_problem s2 = rc_problem s"
      "Read_nfire \<in> set (trace s2)"
      by auto
    show ?thesis
    proof (cases r2)
      case (Inl x)
      with assms o e None have rs: "r = Some x" "s' = s2" by (simp_all add: update_i_band_def)
      from f2 Inl have c: "(case read_nfire w of Inl e \<Rightarrow> True
                            | Inr n \<Rightarrow> n > 0 \<and> datasets_raise w (fire_datasets True))"
        by simp
      then have "report_attempted w True txt (trace s2)"
        by (auto simp: report_attempted_def split: sum.splits)
      moreover from c have "(case read_nfire w of Inl e \<Rightarrow> True
               | Inr n \<Rightarrow> n > 0 \<and> (datasets_raise w (fire_datasets True) \<or> ?nasa
                                     \<or> open_text w txt \<noteq> None))"
        by (auto split: sum.splits)
      ultimately show ?thesis using rs sub2 ok by (simp add: container_attempted_def)
    next
      case (Inr nf)
      obtain n fd where nf: "nf = (n, fd)" by (cases nf)
      from f2 Inr nf have rn: "read_nfire w = Inr n" and nd: "\<not> (n > 0 \<and> datasets_raise w (fire_datasets True))"
        by auto
      show ?thesis
      proof (cases "n > 0")
        case True
        from extract_fire_data_all [OF e [unfolded Inr nf] True, folded names]
        have all2: "list_all (\<lambda>d. Read_dataset d \<in> set (trace s2)) (fire_datasets True)" .
        obtain r3 s3 where rm: "remove_if_exists w (replace_dev txt) s2 = (r3, s3)"
          by (cases "remove_if_exists w (replace_dev txt) s2")
        note f3 = remove_if_exists_exact [OF rm]
        from f3 have sub3: "set (trace s2) \<subseteq> set (trace s3)" "rc_problem s3 = rc_problem s2" by blast+
        show ?thesis
        proof (cases r3)
          case (Some x)
          with assms o e None Inr nf True rm have rs: "r = Some x" "s' = s3"
            by (simp_all add: update_i_band_def)
          from f3 Some have nasa: ?nasa by simp
          from all2 sub3 have all3: "list_all (\<lambda>d. Read_dataset d \<in> set (trace s3)) (fire_datasets True)"
            by (auto simp: list_all_iff)
          have rep: "report_attempted w True txt (trace s3)"
            using rn True nd all3 nasa by (simp add: report_attempted_def)
          from sub2 sub3 have ev: "set (trace s) \<subseteq> set (trace s3)" "Open_container old \<in> set (trace s3)"
            "Stamp_attributes old \<in> set (trace s3)" "Read_nfire \<in> set (trace s3)"
            by auto
          have ca: "container_attempted w True old txt (trace s3)"
            using ev rep ok by (simp add: container_attempted_def)
          from rs sub2 sub3 rn True nasa ok ev ca show ?thesis by simp
        next
          case None3: None
          with assms o e None Inr nf True rm have wt: "write_text_file w txt fd s3 = (r, s')"
            by (simp add: update_i_band_def)
          from f3 None3 have nasa: "\<not> ?nasa" by simp
          note f4 = write_text_file_exact [OF wt]
          from f4 have sub4: "set (trace s3) \<subseteq> set (trace s')" by blast
          from all2 sub3 sub4 have all4: "list_all (\<lambda>d. Read_dataset d \<in> set (trace s')) (fire_datasets True)"
            by (auto simp: list_all_iff)
          have rep: "report_attempted w True txt (trace s')"
            using rn True nd all4 nasa f4 by (simp add: report_attempted_def)
          from sub2 sub3 sub4 have ev: "set (trace s) \<subseteq> set (trace s')" "Open_container old \<in> set (trace s')"
            "Stamp_attributes old \<in> set (trace s')" "Read_nfire \<in> set (trace s')"
            by auto
          have ca: "container_attempted w True old txt (trace s')"
            using ev rep ok by (simp add: container_attempted_def)
          from f4 sub2 sub3 rn nd True nasa ok ev ca show ?thesis by auto
        qed
      next
        case False
        with assms o e None Inr nf have rs: "r = None" "s' = s2" by (simp_all add: update_i_band_def)
        have rep: "report_attempted w True txt (trace s2)"
          using rn False by (simp add: report_attempted_def)
        with rs sub2 rn False ok show ?thesis by (simp add: container_attempted_def)
      qed
    qed
  qed
qed

lemma update_attributes_exact:
  assumes "update_attributes w opts gd s = (r, s')" and "entries gd ''AFEDR'' = Some afedr"
  shows "r = None
       \<and> rc_problem s'
           = (if repair_raises w (i_band opts) (pjoin (run_dir s) (entry_file afedr))
                   (splitext_root (pjoin (run_dir s) (entry_file afedr)) @ ''.txt'')
              then 1 else rc_problem s)
       \<and> set (trace s) \<subseteq> set (trace s')
       \<and> repair_attempted w (i_band opts) (pjoin (run_dir s) (entry_file afedr))
           (splitext_root (pjoin (run_dir s) (entry_file afedr)) @ ''.txt'') (trace s')"
proof -
  let ?old = "pjoin (run_dir s) (entry_file afedr)"
  let ?txt = "splitext_root ?old @ ''.txt''"
  let ?ib = "i_band opts"
  let ?nasa = "exists_after w (replace_dev ?txt) \<and> os_remove w (replace_dev ?txt) \<noteq> None"
  obtain r1 s1 where rm: "remove_if_exists w ?txt s = (r1, s1)"
    by (cases "remove_if_exists w ?txt s")
  note f1 = remove_if_exists_exact [OF rm]
  show ?thesis
  proof (cases r1)
    case (Some x)
    with assms rm have rs: "r = None" "s' = repair_failed s1"
      by (simp_all add: update_attributes_def Let_def)
    from f1 Some have stale: "exists_after w ?txt \<and> os_remove w ?txt \<noteq> None" by simp
    then have rr: "repair_raises w ?ib ?old ?txt" by (simp add: repair_raises_def)
    from f1 have "set (trace s) \<subseteq> set (trace s')" "Exists ?txt \<in> set (trace s')"
      unfolding rs by (auto simp: repair_failed_def emit_def)
    moreover have "rc_problem s' = 1" unfolding rs by (simp add: repair_failed_def emit_def)
    ultimately show ?thesis using rs(1) rr stale by (simp add: repair_attempted_def)
  next
    case None
    with f1 have fresh: "\<not> (exists_after w ?txt \<and> os_remove w ?txt \<noteq> None)" by simp
    from f1 have s1: "rc_problem s1 = rc_problem s" "set (trace s) \<subseteq> set (trace s1)"
      "Exists ?txt \<in> set (trace s1)" by blast+
    let ?b = "if ?ib then update_i_band w ?old ?txt s1 else update_m_band w ?old ?txt s1"
    obtain r2 s2 where b: "?b = (r2, s2)" by (cases ?b)
    have f2: "(r2 \<noteq> None)
           = (open_container w ?old \<noteq> None \<or> stamp_attributes w ?old \<noteq> None
              \<or> (case read_nfire w of
                    Inl e \<Rightarrow> True
                  | Inr n \<Rightarrow> n > 0 \<and> (datasets_raise w (fire_datasets ?ib) \<or> (?ib \<and> ?nasa)
                               \<or> open_text w ?txt \<noteq> None)))
       \<and> rc_problem s2
           = (if r2 = None \<and> (case read_nfire w of Inl e \<Rightarrow> False | Inr n \<Rightarrow> n > 0 \<and> write_text w ?txt \<noteq> None)
              then 1 else rc_problem s1)
       \<and> set (trace s1) \<subseteq> set (trace s2)
       \<and> container_attempted w ?ib ?old ?txt (trace s2)"
    proof (cases ?ib)
      case True
      with b have bi: "update_i_band w ?old ?txt s1 = (r2, s2)" by simp
      from update_i_band_exact [OF bi] show ?thesis
        unfolding True [THEN Eq_TrueI] by (simp only: simp_thms)
    next
      case False
      with b have bm: "update_m_band w ?old ?txt s1 = (r2, s2)" by simp
      from update_m_band_exact [OF bm] show ?thesis
        unfolding False [THEN Eq_FalseI] by (simp only: simp_thms)
    qed
    then have raises2: "(r2 \<noteq> None)
           = (open_container w ?old \<noteq> None \<or> stamp_attributes w ?old \<noteq> None
              \<or> (case read_nfire w of
                    Inl e \<Rightarrow> True
                  | Inr n \<Rightarrow> n > 0 \<and> (datasets_raise w (fire_datasets ?ib) \<or> (?ib \<and> ?nasa)
                               \<or> open_text w ?txt \<noteq> None)))"
      and rc2: "rc_problem s2
           = (if r2 = None \<and> (case read_nfire w of Inl e \<Rightarrow> False | Inr n \<Rightarrow> n > 0 \<and> write_text w ?txt \<noteq> None)
              then 1 else rc_problem s1)"
      and sub2: "set (trace s1) \<subseteq> set (trace s2)"
      and ca2: "container_attempted w ?ib ?old ?txt (trace s2)"
      by blast+
    from s1 sub2 have ev2: "set (trace s) \<subseteq> set (trace s2)" "Exists ?txt \<in> set (trace s2)" by auto
    show ?thesis
    proof (cases r2)
      case None2: None
      with assms rm None b have rs: "r = None" "s' = s2"
        by (simp_all add: update_attributes_def Let_def)
      from raises2 None2 fresh have rr: "repair_raises w ?ib ?old ?txt
           = (case read_nfire w of Inl e \<Rightarrow> False | Inr n \<Rightarrow> n > 0 \<and> write_text w ?txt \<noteq> None)"
        by (auto simp: repair_raises_def split: sum.splits)
      from rc2 None2 s1(1) rr have "rc_problem s2 = (if repair_raises w ?ib ?old ?txt then 1 else rc_problem s)"
        by simp
      with rs ev2 ca2 fresh show ?thesis by (simp add: repair_attempted_def)
    next
      case (Some x)
      with assms rm None b have rs: "r = None" "s' = repair_failed s2"
        by (simp_all add: update_attributes_def Let_def)
      from raises2 Some have rr: "repair_raises w ?ib ?old ?txt"
        by (auto simp: repair_raises_def split: sum.splits)
      have sub3: "set (trace s2) \<subseteq> set (trace s')" and rc3: "rc_problem s' = 1"
        unfolding rs by (auto simp: repair_failed_def emit_def)
      from container_attempted_mono [OF sub3 ca2]
      have ca3: "container_attempted w ?ib ?old ?txt (trace s')" .
      from ev2 sub3 have "set (trace s) \<subseteq> set (trace s')" "Exists ?txt \<in> set (trace s')" by auto
      with rs(1) rc3 rr ca3 show ?thesis by (simp add: repair_attempted_def)
    qed
  qed
qed

lemma post_process_exact:
  assumes "post_process w opts gd cd s = (r, s')" and "\<forall>p. write_log w p = None"
      and "entries gd ''AFEDR'' = Some afedr"
  shows "r = None
       \<and> rc_problem s'
           = (if repair_raises w (i_band opts) (pjoin (run_dir s) (entry_file afedr))
                   (splitext_root (pjoin (run_dir s) (entry_file afedr)) @ ''.txt'')
                 \<or> move_raises w (work_dir opts) (outfiles w opts (run_dir s))
              then 1 else rc_problem s)
       \<and> repair_attempted w (i_band opts) (pjoin (run_dir s) (entry_file afedr))
           (splitext_root (pjoin (run_dir s) (entry_file afedr)) @ ''.txt'') (trace s')
       \<and> relocation_attempted w opts (run_dir s) (trace s')"
proof -
  let ?logpath = "pjoin (dirname (run_dir s)) (run_dir s @ ''_'' @ utcnow w @ ''.log'')"
  let ?s0 = "emit (Write_log ?logpath) (chdir cd s)"
  let ?old = "pjoin (run_dir s) (entry_file afedr)"
  let ?txt = "splitext_root ?old @ ''.txt''"
  have s0: "run_dir ?s0 = run_dir s" "rc_problem ?s0 = rc_problem s"
    by (simp_all add: emit_def chdir_def)
  obtain r1 s1 where u: "update_attributes w opts gd ?s0 = (r1, s1)"
    by (cases "update_attributes w opts gd ?s0")
  from update_attributes_exact [OF u assms(3), unfolded s0]
  have r1: "r1 = None"
    and rc1: "rc_problem s1 = (if repair_raises w (i_band opts) ?old ?txt then 1 else rc_problem s)"
    and ra1: "repair_attempted w (i_band opts) ?old ?txt (trace s1)"
    by blast+
  from update_attributes_frame [OF u, of is_glob] s0 have rd1: "run_dir s1 = run_dir s" by simp
  from assms(1,2) u r1 have rs: "r = None" "s' = relocate_outputs w opts s1"
    by (simp_all add: post_process_def Let_def)
  from relocate_outputs_exact [of w opts s1, unfolded rd1]
  have rc2: "rc_problem (relocate_outputs w opts s1)
               = (if move_raises w (work_dir opts) (outfiles w opts (run_dir s)) then 1 else rc_problem s1)"
    and sub2: "set (trace s1) \<subseteq> set (trace (relocate_outputs w opts s1))"
    and mv2: "(\<lambda>f. Move f (work_dir opts)) ` set (outfiles w opts (run_dir s))
                \<subseteq> set (trace (relocate_outputs w opts s1))"
    and gl2: "list_ex is_glob (trace (relocate_outputs w opts s1))"
    by blast+
  from repair_attempted_mono [OF sub2 ra1]
  have c3: "repair_attempted w (i_band opts) ?old ?txt (trace s')" unfolding rs .
  from mv2 gl2 have c4: "relocation_attempted w opts (run_dir s) (trace s')"
    unfolding rs by (auto simp: relocation_attempted_def list_all_iff)
  from rc1 rc2 have c2: "rc_problem s'
           = (if repair_raises w (i_band opts) ?old ?txt
                 \<or> move_raises w (work_dir opts) (outfiles w opts (run_dir s))
              then 1 else rc_problem s)"
    unfolding rs by simp
  from rs(1) c2 c3 c4 show ?thesis by blast
qed

text \<open>
  Claim C6. When the worker returns a non-zero execution status, the captured output
  could be written to the log file and the granule has its \<^verbatim>\<open>'AFEDR'\<close> entry: the binary
  was called and the status and text returned are the ones it returned; the repair step
  makes each of its calls whose predecessors returned (the test for a stale text file,
  opening the container, stamping the attributes, reading the record count and, for a
  positive count, reading the datasets and creating and writing the text file); both
  output patterns are looked up and every file found is moved; and the problem status
  is 1 exactly when a call of the repair step or a move raised, and 0 otherwise, whatever
  the execution status.
\<close>

theorem nonzero_exit_still_repairs:
  assumes "rc_exe (afire_worker w a) \<noteq> 0"
      and "\<forall>p. write_log w p = None"
      and "entries (arg_granule_dict a) ''AFEDR'' = Some afedr"
  shows "list_ex is_execute_binary (trace (afire_worker w a))
       \<and> execute_binary w (run_dir (afire_worker w a)) (cmd (arg_granule_dict a))
           = Inr (rc_exe (afire_worker w a), exe_out (afire_worker w a))
       \<and> afire_submitter w a
           = (granule_id (arg_granule_dict a), rc_exe (afire_worker w a),
              rc_problem (afire_worker w a), exe_out (afire_worker w a))
       \<and> repair_attempted w (i_band (arg_afire_options a))
           (pjoin (run_dir (afire_worker w a)) (entry_file afedr))
           (splitext_root (pjoin (run_dir (afire_worker w a)) (entry_file afedr)) @ ''.txt'')
           (trace (afire_worker w a))
       \<and> relocation_attempted w (arg_afire_options a) (run_dir (afire_worker w a))
           (trace (afire_worker w a))
       \<and> rc_problem (afire_worker w a)
           = (if repair_raises w (i_band (arg_afire_options a))
                   (pjoin (run_dir (afire_worker w a)) (entry_file afedr))
                   (splitext_root (pjoin (run_dir (afire_worker w a)) (entry_file afedr)) @ ''.txt'')
                 \<or> move_raises w (work_dir (arg_afire_options a))
                      (outfiles w (arg_afire_options a) (run_dir (afire_worker w a)))
              then 1 else 0)"
proof -
  let ?gd = "arg_granule_dict a" and ?opts = "arg_afire_options a"
  from worker_paths [of is_glob w a] assms(1)
  obtain s0 where s0: "rc_problem s0 = 0" "list_ex is_execute_binary (trace s0)"
      "execute_binary w (run_dir s0) (cmd ?gd) = Inr (rc_exe s0, exe_out s0)"
      "afire_body w a = remove_run_dir w ?opts (post_process w ?opts ?gd (os_getcwd w) s0)"
    by auto
  obtain r1 s1 where pp: "post_process w ?opts ?gd (os_getcwd w) s0 = (r1, s1)"
    by (cases "post_process w ?opts ?gd (os_getcwd w) s0")
  note f1 = post_process_frame [OF pp, of is_execute_binary]
  note e1 = post_process_exact [OF pp assms(2,3)]
  from e1 have r1: "r1 = None" by blast
  from f1 have loc1: "rc_exe s1 = rc_exe s0" "exe_out s1 = exe_out s0" "run_dir s1 = run_dir s0"
    by simp_all
  obtain r2 s2 where rr: "remove_run_dir w ?opts (r1, s1) = (r2, s2)"
    by (cases "remove_run_dir w ?opts (r1, s1)")
  have body: "afire_body w a = (r2, s2)" using s0(4) pp rr by simp
  note f2 = remove_run_dir_frame [OF rr, of ?gd is_execute_binary]
  note f3 = afire_worker_frame [OF body, of ?gd is_execute_binary]
  from f2 f3 loc1 have "rc_exe s1 = rc_exe (afire_worker w a)" by simp
  with assms(1) have nz: "rc_exe s1 \<noteq> 0" by simp
  with f2 r1 have same: "r2 = None" "s2 = s1" by simp_all
  from body same have wk: "afire_worker w a = s1" by (simp add: afire_worker_def)
  have c1: "list_ex is_execute_binary (trace (afire_worker w a))"
    unfolding wk using s0(2) f1 by blast
  have c2: "execute_binary w (run_dir (afire_worker w a)) (cmd ?gd)
              = Inr (rc_exe (afire_worker w a), exe_out (afire_worker w a))"
    unfolding wk loc1 by (rule s0(3))
  have c3: "afire_submitter w a
              = (granule_id ?gd, rc_exe (afire_worker w a),
                 rc_problem (afire_worker w a), exe_out (afire_worker w a))"
    by (simp add: afire_submitter_def Let_def)
  from e1 s0(1) show ?thesis
    using c1 c2 c3 unfolding wk loc1 by simp
qed

theorem nonzero_exit_still_repairs_witness:
  "afire_submitter
       (example_world\<lparr>execute_binary := \<lambda>rd c. Inr (1, ''failed''),
                      glob := \<lambda>p. [p], shutil_move := \<lambda>f d. Some (OSError ''cannot move'')\<rparr>)
       (example_args ''g1'')
     = (''g1'', 1, 1, ''failed'')
   \<and> relocation_attempted
       (example_world\<lparr>execute_binary := \<lambda>rd c. Inr (1, ''failed''),
                      glob := \<lambda>p. [p], shutil_move := \<lambda>f d. Some (OSError ''cannot move'')\<rparr>)
       example_options ''/work/g1_run_0''
       (trace (afire_worker
                 (example_world\<lparr>execute_binary := \<lambda>rd c. Inr (1, ''failed''),
                                glob := \<lambda>p. [p], shutil_move := \<lambda>f d. Some (OSError ''cannot move'')\<rparr>)
                 (example_args ''g1'')))
   \<and> rc_problem (afire_worker (example_world\<lparr>execute_binary := \<lambda>rd c. Inr (1, ''failed'')\<rparr>)
                    (example_args ''g1'')) = 0"
proof -
  let ?w = "example_world\<lparr>execute_binary := \<lambda>rd c. Inr (1, ''failed''),
                          glob := \<lambda>p. [p], shutil_move := \<lambda>f d. Some (OSError ''cannot move'')\<rparr>"
  have h: "rc_exe (afire_worker ?w (example_args ''g1'')) \<noteq> 0"
    by code_simp
  have wl: "\<forall>p. write_log ?w p = None"
    by (simp add: example_world_def)
  have af: "entries (arg_granule_dict (example_args ''g1'')) ''AFEDR''
              = Some \<lparr>entry_file = ''AFMOD.nc'', entry_dt = 0\<rparr>"
    by (simp add: example_args_def example_granule_def)
  have v: "afire_submitter ?w (example_args ''g1'') = (''g1'', 1, 1, ''failed'')"
    by code_simp
  have rd: "run_dir (afire_worker ?w (example_args ''g1'')) = ''/work/g1_run_0''"
    by code_simp
  have op: "arg_afire_options (example_args ''g1'') = example_options"
    by (simp add: example_args_def)
  let ?u = "example_world\<lparr>execute_binary := \<lambda>rd c. Inr (1, ''failed'')\<rparr>"
  have hu: "rc_exe (afire_worker ?u (example_args ''g1'')) \<noteq> 0"
    by code_simp
  have wlu: "\<forall>p. write_log ?u p = None"
    by (simp add: example_world_def)
  have rdu: "run_dir (afire_worker ?u (example_args ''g1'')) = ''/work/g1_run_0''"
    by code_simp
  have quiet: "\<not> (repair_raises ?u (i_band example_options)
                     (pjoin ''/work/g1_run_0'' (entry_file \<lparr>entry_file = ''AFMOD.nc'', entry_dt = 0\<rparr>))
                     (splitext_root
                        (pjoin ''/work/g1_run_0'' (entry_file \<lparr>entry_file = ''AFMOD.nc'', entry_dt = 0\<rparr>))
                      @ ''.txt'')
                   \<or> move_raises ?u (work_dir example_options)
                        (outfiles ?u example_options ''/work/g1_run_0''))"
    by code_simp
  from nonzero_exit_still_repairs [OF hu wlu af, unfolded rdu op] quiet
  have u: "rc_problem (afire_worker ?u (example_args ''g1'')) = 0"
    by simp
  from nonzero_exit_still_repairs [OF h wl af, unfolded rd op] v u show ?thesis by blast
qed

text \<open>
  The binary exits with status 1 and writing the log file raises: the worker returns
  the status 1, but it makes no call of the repair step and looks up no output file.
\<close>

theorem nonzero_exit_log_fault_skips_repair:
  "afire_submitter
       (example_world\<lparr>execute_binary := \<lambda>rd c. Inr (1, ''failed''),
                      write_log := \<lambda>p. Some (OSError ''disk full'')\<rparr>)
       (example_args ''g1'')
     = (''g1'', 1, 0, ''failed'')
   \<and> \<not> list_ex is_open_container
         (trace (afire_worker
                   (example_world\<lparr>execute_binary := \<lambda>rd c. Inr (1, ''failed''),
                                  write_log := \<lambda>p. Some (OSError ''disk full'')\<rparr>)
                   (example_args ''g1'')))
   \<and> \<not> list_ex is_glob
         (trace (afire_worker
                   (example_world\<lparr>execute_binary := \<lambda>rd c. Inr (1, ''failed''),
                                  write_log := \<lambda>p. Some (OSError ''disk full'')\<rparr>)
                   (example_args ''g1'')))"
  by code_simp

section \<open>The handler at the task boundary\<close>

text \<open>
  The handler of the outer \<^verbatim>\<open>try\<close> returns the statuses as the exception left them.
\<close>

lemma catch_all_statuses:
  assumes "afire_body w a = (Some e, s)"
  shows "afire_submitter w a = (granule_id (arg_granule_dict a), rc_exe s, rc_problem s, exe_out s)"
  using assms by (simp add: afire_submitter_def afire_worker_def chdir_def emit_def)

text \<open>
  Claim C1. An exception raised by \<^verbatim>\<open>link_files\<close> is caught at the task boundary and
  logged, and the worker returns; but the result has \<^verbatim>\<open>problem_rc = 0\<close>, and the summary
  lists the granule as successful.
\<close>

theorem catch_all_returns_zero_problem_rc:
  "afire_submitter (example_world\<lparr>link_files := \<lambda>rd ps. Inl (OSError ''cannot link'')\<rparr>)
       (example_args ''g1'')
     = (''g1'', 0, 0, ''Finished the Active Fires granule g1'')
   \<and> list_ex ((=) (Warn (General_warning ''g1'')))
       (trace (afire_worker (example_world\<lparr>link_files := \<lambda>rd ps. Inl (OSError ''cannot link'')\<rparr>)
                 (example_args ''g1'')))
   \<and> \<not> list_ex is_execute_binary
       (trace (afire_worker (example_world\<lparr>link_files := \<lambda>rd ps. Inl (OSError ''cannot link'')\<rparr>)
                 (example_args ''g1'')))
   \<and> summary [''g1'' \<mapsto> 0] [''g1'' \<mapsto> 0] [''g1''] = Inr ([''g1''], [''g1''], [], [])"
  by code_simp

section \<open>The exit status of the driver\<close>



end
